theory Spec2Isabelle
  imports Complex_Main "HOL-Library.Multiset"
begin

section \<open>The database of the book recommender\<close>

text \<open>
  The three tables that \<^verbatim>\<open>init_db\<close> creates (app.py, lines 50-81). A table is the list
  of its rows in rowid order, which is the order a scan of the table visits them.
  \<^verbatim>\<open>INTEGER\<close> columns are integers, \<^verbatim>\<open>TEXT NOT NULL\<close> columns are byte strings (the
  UTF-8 text SQLite stores), a \<^verbatim>\<open>TEXT\<close> column that may be \<^verbatim>\<open>NULL\<close> is an option.
\<close>

record user_row =
  u_id :: int
  username :: string
  password_hash :: string

record book_row =
  b_id :: int
  title :: string
  author :: string
  genre :: string
  description :: "string option"

record review_row =
  r_id :: int
  r_user_id :: int
  r_book_id :: int
  rating :: int
  review_text :: "string option"

record database =
  users :: "user_row list"
  books :: "book_row list"
  reviews :: "review_row list"

text \<open>
  The state a request handler works on: the database file and the connection that
  \<^verbatim>\<open>get_db\<close> caches in \<^verbatim>\<open>g._database\<close> (lines 23-34); \<open>g_database\<close> says whether
  that connection has been opened.
\<close>

record app_state =
  db_file :: database
  g_database :: bool

datatype error =
  OperationalError | IntegrityError | TypeError | OverflowError | BadRequestKeyError

definition get_db :: "app_state \<Rightarrow> app_state" where
  "get_db s = (if g_database s then s else s\<lparr>g_database := True\<rparr>)"

section \<open>The fragment of SQL the queries use\<close>

text \<open>
  \<^verbatim>\<open>ORDER BY\<close>: the rows are placed one by one into the sorted output. \<open>place\<close> puts a
  row in front of the first row that it may precede, so rows that the ordering does not
  separate keep the order in which the query produced them (SQLite's \<^verbatim>\<open>ORDER BY ... LIMIT\<close>
  appends a sequence number to the sort key).
\<close>

fun place :: "('a \<Rightarrow> 'a \<Rightarrow> bool) \<Rightarrow> 'a \<Rightarrow> 'a list \<Rightarrow> 'a list" where
  "place prec x [] = [x]"
| "place prec x (y # ys) = (if prec x y then x # y # ys else y # place prec x ys)"

definition order_by :: "('a \<Rightarrow> 'a \<Rightarrow> bool) \<Rightarrow> 'a list \<Rightarrow> 'a list" where
  "order_by prec rows = foldr (place prec) rows []"

text \<open>
  \<^verbatim>\<open>TEXT\<close> values compare under the \<^verbatim>\<open>BINARY\<close> collation: byte by byte, a proper prefix
  first.
\<close>

fun text_le :: "string \<Rightarrow> string \<Rightarrow> bool" where
  "text_le [] ys = True"
| "text_le (x # xs) [] = False"
| "text_le (x # xs) (y # ys) =
     ((of_char x :: nat) < of_char y \<or> (x = y \<and> text_le xs ys))"

text \<open>
  \<^verbatim>\<open>AVG(r.rating)\<close> over the reviews that the \<^verbatim>\<open>LEFT JOIN\<close> attaches to a book: \<^verbatim>\<open>NULL\<close>
  when the book has no review. SQLite returns the quotient as a double; the model keeps
  the exact quotient, which compares the same way as long as no book has \<open>2 ^ 25\<close> or
  more reviews (two different averages of ratings from 1 to 5 then differ by more than
  the rounding of a double).
\<close>

definition avg_rating :: "review_row list \<Rightarrow> int \<Rightarrow> rat option" where
  "avg_rating rs book_id =
     (let scores = map rating (filter (\<lambda>r. r_book_id r = book_id) rs)
      in if scores = [] then None
         else Some (of_int (sum_list scores) / of_int (int (length scores))))"

text \<open>
  \<^verbatim>\<open>SELECT b.*, AVG(r.rating) as avg_rating FROM books b LEFT JOIN reviews r ON b.id = r.book_id
  WHERE ... GROUP BY b.id\<close>, for a \<^verbatim>\<open>WHERE\<close> clause \<open>keep\<close> over the columns of
  \<^verbatim>\<open>b\<close>: \<^verbatim>\<open>b.id\<close> is the primary key of \<^verbatim>\<open>books\<close>, so each group is one book with
  the reviews joined to it, and the groups come in the order of the scan of \<^verbatim>\<open>books\<close>.
\<close>

definition books_with_avg ::
  "database \<Rightarrow> (book_row \<Rightarrow> bool) \<Rightarrow> (book_row \<times> rat option) list" where
  "books_with_avg db keep =
     map (\<lambda>b. (b, avg_rating (reviews db) (b_id b))) (filter keep (books db))"

text \<open>
  \<^verbatim>\<open>ORDER BY avg_rating DESC\<close>: \<open>avg_ge a b\<close> holds when average \<open>a\<close> may come before
  average \<open>b\<close>. \<^verbatim>\<open>NULL\<close> is smaller than every number, so it comes last.
\<close>

fun avg_ge :: "rat option \<Rightarrow> rat option \<Rightarrow> bool" where
  "avg_ge a None = True"
| "avg_ge None (Some y) = False"
| "avg_ge (Some x) (Some y) = (y \<le> x)"

definition by_avg_desc :: "book_row \<times> rat option \<Rightarrow> book_row \<times> rat option \<Rightarrow> bool" where
  "by_avg_desc p q = avg_ge (snd p) (snd q)"

text \<open>\<^verbatim>\<open>ORDER BY avg_rating DESC, b.title ASC\<close>.\<close>

definition by_avg_desc_title_asc ::
  "book_row \<times> rat option \<Rightarrow> book_row \<times> rat option \<Rightarrow> bool" where
  "by_avg_desc_title_asc p q =
     (\<not> avg_ge (snd q) (snd p) \<or>
      (snd p = snd q \<and> text_le (title (fst p)) (title (fst q))))"

section \<open>The recommendation logic\<close>

text \<open>
  Lines 132-140. The join of the user's reviews of rating 4 or more with their books
  gives one genre per joined row (\<open>liked_genres\<close>). \<^verbatim>\<open>GROUP BY b.genre\<close> makes one group
  per genre. SQLite forms the groups by sorting on the genre and gives that sort the
  direction of the single \<^verbatim>\<open>ORDER BY\<close> term, \<^verbatim>\<open>DESC\<close>, so the groups come out in
  descending order of genre. \<^verbatim>\<open>ORDER BY COUNT(b.genre) DESC\<close> then orders them by size,
  groups of equal size staying in that order, and \<^verbatim>\<open>LIMIT 3\<close> keeps the first three.
\<close>

definition liked_genres :: "database \<Rightarrow> int \<Rightarrow> string list" where
  "liked_genres db user_id =
     concat (map (\<lambda>r. map genre (filter (\<lambda>b. r_book_id r = b_id b) (books db)))
               (filter (\<lambda>r. r_user_id r = user_id \<and> 4 \<le> rating r) (reviews db)))"

definition genre_counts :: "database \<Rightarrow> int \<Rightarrow> (string \<times> nat) list" where
  "genre_counts db user_id =
     (let liked = liked_genres db user_id
      in map (\<lambda>g. (g, count_list liked g))
           (order_by (\<lambda>g h. text_le h g) (remdups liked)))"

definition favorite_genres :: "database \<Rightarrow> int \<Rightarrow> string list" where
  "favorite_genres db user_id =
     map fst (take 3 (order_by (\<lambda>p q. snd q \<le> snd p) (genre_counts db user_id)))"

text \<open>
  Line 161: the books the user has reviewed, whatever the rating. The rows are read from
  the index of \<^verbatim>\<open>UNIQUE (user_id, book_id)\<close>, so in ascending order of \<^verbatim>\<open>book_id\<close>.
\<close>

definition reviewed_book_ids :: "database \<Rightarrow> int \<Rightarrow> int list" where
  "reviewed_book_ids db user_id =
     order_by (\<lambda>i j. i \<le> j)
       (map r_book_id (filter (\<lambda>r. r_user_id r = user_id) (reviews db)))"

text \<open>Lines 144-151: the global ranking.\<close>

definition global_top :: "database \<Rightarrow> (book_row \<times> rat option) list" where
  "global_top db = take 5 (order_by by_avg_desc (books_with_avg db (\<lambda>b. True)))"

text \<open>
  Lines 165-187: the query assembled for the favourite genres. The exclusion
  \<^verbatim>\<open>AND b.id NOT IN (...)\<close> is added only when the user has reviewed a book. The limit of
  SQLite on the number of bound parameters (32766 by default) is not modelled: it takes a
  user with more reviews than that to reach it.
\<close>

definition genre_top :: "database \<Rightarrow> string list \<Rightarrow> int list \<Rightarrow> (book_row \<times> rat option) list" where
  "genre_top db genres reviewed =
     (let keep = (if reviewed \<noteq> []
                  then (\<lambda>b. genre b \<in> set genres \<and> b_id b \<notin> set reviewed)
                  else (\<lambda>b. genre b \<in> set genres))
      in take 5 (order_by by_avg_desc_title_asc (books_with_avg db keep)))"

text \<open>
  \<^verbatim>\<open>get_recommendations\<close> (lines 123-202). The result is the value returned or the
  exception raised, and the state after the call.

  SQLite integers have 64 bits: binding a \<^verbatim>\<open>user_id\<close> below \<open>- 2 ^ 63\<close> or from
  \<open>2 ^ 63\<close> on to the first query (line 140) raises \<^verbatim>\<open>OverflowError\<close>.

  The statement of the last fallback (lines 191-199) is a plain string literal, not an
  f-string, and no parameters are passed with it: the text that reaches SQLite contains
  \<^verbatim>\<open>NOT IN ({exclusion_placeholders})\<close>, the tokenizer rejects the brace and
  \<^verbatim>\<open>db.execute\<close> raises \<^verbatim>\<open>sqlite3.OperationalError\<close>.
\<close>

definition get_recommendations ::
  "int \<Rightarrow> app_state \<Rightarrow> (error + (book_row \<times> rat option) list) \<times> app_state" where
  "get_recommendations user_id s =
     (let s' = get_db s;
          db = db_file s'
      in if user_id < - (2 ^ 63) \<or> 2 ^ 63 \<le> user_id then (Inl OverflowError, s')
         else
           let genres = favorite_genres db user_id
           in if genres = [] then (Inr (global_top db), s')
              else
                let recommendations = genre_top db genres (reviewed_book_ids db user_id)
                in if recommendations = [] then (Inl OperationalError, s')
                   else (Inr recommendations, s'))"

section \<open>Writing to the database\<close>

text \<open>
  The rowid that an \<^verbatim>\<open>INTEGER PRIMARY KEY AUTOINCREMENT\<close> column gives to a new row: one
  more than the largest rowid the table has had. The program never deletes a row, so
  that is the largest rowid in the table.
\<close>

definition next_id :: "int list \<Rightarrow> int" where
  "next_id ids = fold max ids 0 + 1"

text \<open>
  \<^verbatim>\<open>init_db\<close> (lines 43-97). \<^verbatim>\<open>CREATE TABLE IF NOT EXISTS\<close> leaves an existing table as
  it is; the six sample books are inserted when \<^verbatim>\<open>books\<close> is empty. The author of the
  first book ends in \<^verbatim>\<open>Zaf\<close>, the two bytes of an o with acute accent in UTF-8, and
  \<^verbatim>\<open>n\<close>.
\<close>

definition sample_books :: "(string \<times> string \<times> string \<times> string) list" where
  "sample_books =
     [(''The Shadow of the Wind'', ''Carlos Ruiz Zaf'' @ [CHR 0xC3, CHR 0xB3] @ ''n'',
       ''Mystery'', ''A magical tale set in a Barcelona book graveyard.''),
      (''The Martian'', ''Andy Weir'', ''Sci-Fi'',
       ''An astronaut struggles to survive alone on Mars.''),
      (''A Gentleman in Moscow'', ''Amor Towles'', ''Historical Fiction'',
       ''A count is sentenced to house arrest in a luxury hotel.''),
      (''Project Hail Mary'', ''Andy Weir'', ''Sci-Fi'',
       ''A solitary survivor must save Earth from catastrophe.''),
      (''Where the Crawdads Sing'', ''Delia Owens'', ''Mystery'',
       ''A story of a girl who raises herself in the marshes of North Carolina.''),
      (''Sapiens: A Brief History of Humankind'', ''Yuval Noah Harari'', ''Non-Fiction'',
       ''A look at the history of humanity from early times to the present.'')]"

definition insert_book :: "string \<times> string \<times> string \<times> string \<Rightarrow> database \<Rightarrow> database" where
  "insert_book v db =
     (case v of (t, a, g, d) \<Rightarrow>
        db\<lparr>books := books db @
             [\<lparr>b_id = next_id (map b_id (books db)), title = t, author = a, genre = g,
               description = Some d\<rparr>]\<rparr>)"

definition init_db :: "database \<Rightarrow> database" where
  "init_db db = (if length (books db) = 0 then fold insert_book sample_books db else db)"

definition empty_db :: database where
  "empty_db = \<lparr>users = [], books = [], reviews = []\<rparr>"

text \<open>
  \<^verbatim>\<open>INSERT INTO reviews\<close> (line 266): the constraint \<^verbatim>\<open>UNIQUE (user_id, book_id)\<close> of
  line 79 rejects a second row for the same pair with \<^verbatim>\<open>sqlite3.IntegrityError\<close>.
\<close>

definition insert_review ::
  "database \<Rightarrow> int \<Rightarrow> int \<Rightarrow> int \<Rightarrow> string option \<Rightarrow> error + database" where
  "insert_review db user_id book_id score txt =
     (if \<exists>r \<in> set (reviews db). r_user_id r = user_id \<and> r_book_id r = book_id
      then Inl IntegrityError
      else Inr (db\<lparr>reviews := reviews db @
                  [\<lparr>r_id = next_id (map r_id (reviews db)), r_user_id = user_id,
                    r_book_id = book_id, rating = score, review_text = txt\<rparr>]\<rparr>))"

text \<open>\<^verbatim>\<open>UPDATE reviews SET rating = ?, review_text = ? WHERE id = ?\<close> (line 260).\<close>

definition update_review :: "database \<Rightarrow> int \<Rightarrow> string option \<Rightarrow> int \<Rightarrow> database" where
  "update_review db score txt review_id =
     db\<lparr>reviews := map (\<lambda>r. if r_id r = review_id
                               then r\<lparr>rating := score, review_text := txt\<rparr> else r)
                        (reviews db)\<rparr>"

text \<open>
  \<^verbatim>\<open>INSERT INTO users\<close> (line 313): \<^verbatim>\<open>username\<close> is \<^verbatim>\<open>UNIQUE\<close> (line 53).
\<close>

definition insert_user :: "database \<Rightarrow> string \<Rightarrow> string \<Rightarrow> error + database" where
  "insert_user db name pw_hash =
     (if \<exists>u \<in> set (users db). username u = name then Inl IntegrityError
      else Inr (db\<lparr>users := users db @
                  [\<lparr>u_id = next_id (map u_id (users db)), username = name,
                    password_hash = pw_hash\<rparr>]\<rparr>))"

section \<open>The request handlers that write\<close>

datatype http_method = GET | POST

text \<open>
  What a handler reads from a request: the method, the user id that the session carries
  (if any) and the fields of the submitted form, each absent or a string.
\<close>

record request =
  req_method :: http_method
  session_user_id :: "int option"
  form_rating :: "string option"
  form_review_text :: "string option"
  form_username :: "string option"
  form_password :: "string option"

datatype endpoint = Index | Login | Book_detail int

datatype page =
  Book_detail_page book_row "(review_row \<times> string) list" "review_row option"
| Register_page

text \<open>A response: the messages flashed, and a redirect or a rendered page.\<close>

datatype response = Redirect "string list" endpoint | Render "string list" page

text \<open>
  \<^verbatim>\<open>load_user\<close> (lines 112-119) and \<^verbatim>\<open>current_user\<close>: the user is authenticated when
  the session carries the id of a row of \<^verbatim>\<open>users\<close>.
\<close>

definition load_user :: "database \<Rightarrow> int \<Rightarrow> user_row option" where
  "load_user db user_id = find (\<lambda>u. u_id u = user_id) (users db)"

definition current_user :: "database \<Rightarrow> request \<Rightarrow> user_row option" where
  "current_user db req =
     (case session_user_id req of None \<Rightarrow> None | Some i \<Rightarrow> load_user db i)"

text \<open>
  \<^verbatim>\<open>request.form.get(key, type=int)\<close>: \<^verbatim>\<open>None\<close> when the field is absent or when
  \<^verbatim>\<open>int\<close> raises \<^verbatim>\<open>ValueError\<close> on its value. Python's \<^verbatim>\<open>int\<close> on a string is not
  part of the program; it is the parameter \<open>py_int\<close>.
\<close>

definition form_get_int :: "(string \<Rightarrow> int option) \<Rightarrow> string option \<Rightarrow> int option" where
  "form_get_int py_int field = (case field of None \<Rightarrow> None | Some v \<Rightarrow> py_int v)"

text \<open>Lines 229-235: the reviews shown on the page of a book, newest first.\<close>

definition reviews_of_book :: "database \<Rightarrow> int \<Rightarrow> (review_row \<times> string) list" where
  "reviews_of_book db book_id =
     order_by (\<lambda>p q. r_id (fst q) \<le> r_id (fst p))
       (concat (map (\<lambda>r. map (\<lambda>u. (r, username u))
                            (filter (\<lambda>u. r_user_id r = u_id u) (users db)))
                  (filter (\<lambda>r. r_book_id r = book_id) (reviews db))))"

text \<open>Lines 237-242: the review of this book by the current user.\<close>

definition user_review :: "database \<Rightarrow> request \<Rightarrow> int \<Rightarrow> review_row option" where
  "user_review db req book_id =
     (case current_user db req of
        None \<Rightarrow> None
      | Some u \<Rightarrow> find (\<lambda>r. r_user_id r = u_id u \<and> r_book_id r = book_id) (reviews db))"

text \<open>
  \<^verbatim>\<open>book_detail\<close> (lines 219-283). The converter of the route (line 219) yields a
  \<^verbatim>\<open>book_id\<close> that is not negative. A \<^verbatim>\<open>book_id\<close> of \<open>2 ^ 63\<close> or more does not fit
  an SQLite integer and the first query raises \<^verbatim>\<open>OverflowError\<close>. The comparison
  \<^verbatim>\<open>1 <= rating <= 5\<close> of line 252 is outside the \<^verbatim>\<open>try\<close> block: on \<^verbatim>\<open>None\<close> it
  raises \<^verbatim>\<open>TypeError\<close>, which no handler catches.
\<close>

definition book_detail ::
  "(string \<Rightarrow> int option) \<Rightarrow> request \<Rightarrow> int \<Rightarrow> app_state \<Rightarrow> (error + response) \<times> app_state" where
  "book_detail py_int req book_id s =
     (let s' = get_db s; db = db_file s'
      in if 2 ^ 63 \<le> book_id then (Inl OverflowError, s')
         else case find (\<lambda>b. b_id b = book_id) (books db) of
           None \<Rightarrow> (Inr (Redirect [''Book not found.''] Index), s')
         | Some book \<Rightarrow>
             if req_method req = POST then
               (case current_user db req of
                  None \<Rightarrow>
                    (Inr (Redirect [''You must be logged in to submit a review.''] Login), s')
                | Some u \<Rightarrow>
                    (case form_get_int py_int (form_rating req) of
                       None \<Rightarrow> (Inl TypeError, s')
                     | Some score \<Rightarrow>
                         if \<not> (1 \<le> score \<and> score \<le> 5)
                         then (Inr (Redirect [''Rating must be between 1 and 5.'']
                                      (Book_detail book_id)), s')
                         else
                           (case user_review db req book_id of
                              Some old \<Rightarrow>
                                (Inr (Redirect [''Your review has been updated!'']
                                        (Book_detail book_id)),
                                 s'\<lparr>db_file :=
                                      update_review db score (form_review_text req) (r_id old)\<rparr>)
                            | None \<Rightarrow>
                                (case insert_review db (u_id u) book_id score
                                        (form_review_text req) of
                                   Inl e \<Rightarrow>
                                     (Inr (Redirect
                                        [''Error submitting review. You may have already reviewed this book.'']
                                        (Book_detail book_id)), s')
                                 | Inr db' \<Rightarrow>
                                     (Inr (Redirect [''Your review has been submitted!'']
                                             (Book_detail book_id)),
                                      s'\<lparr>db_file := db'\<rparr>)))))
             else (Inr (Render [] (Book_detail_page book (reviews_of_book db book_id)
                                     (user_review db req book_id))), s'))"

text \<open>
  \<^verbatim>\<open>register\<close> (lines 294-321). \<^verbatim>\<open>current_user\<close> opens the connection only when the
  session carries a user id. \<^verbatim>\<open>request.form[key]\<close> raises a key error when the field is
  absent. \<^verbatim>\<open>generate_password_hash\<close> belongs to a library and salts the hash at random;
  it is the parameter \<open>gen_hash\<close>.
\<close>

definition register ::
  "(string \<Rightarrow> string) \<Rightarrow> request \<Rightarrow> app_state \<Rightarrow> (error + response) \<times> app_state" where
  "register gen_hash req s =
     (let s0 = (if session_user_id req = None then s else get_db s)
      in if current_user (db_file s0) req \<noteq> None then (Inr (Redirect [] Index), s0)
         else if req_method req = POST then
           (case form_username req of
              None \<Rightarrow> (Inl BadRequestKeyError, s0)
            | Some name \<Rightarrow>
                (case form_password req of
                   None \<Rightarrow> (Inl BadRequestKeyError, s0)
                 | Some password \<Rightarrow>
                     let s' = get_db s0; db = db_file s'
                     in if find (\<lambda>u. username u = name) (users db) \<noteq> None
                        then (Inr (Render
                                [''Username already taken. Please choose a different one.'']
                                Register_page), s')
                        else
                          (case insert_user db name (gen_hash password) of
                             Inl e \<Rightarrow> (Inl e, s')
                           | Inr db' \<Rightarrow>
                               (Inr (Redirect [''Registration successful! Please log in.'']
                                       Login),
                                s'\<lparr>db_file := db'\<rparr>))))
         else (Inr (Render [] Register_page), s0))"

section \<open>The databases the program can reach\<close>

text \<open>
  The database starts as \<^verbatim>\<open>init_db\<close> leaves a new file, and changes only through the
  handlers. \<^verbatim>\<open>index\<close>, \<^verbatim>\<open>login\<close> and \<^verbatim>\<open>logout\<close> execute no statement that
  writes.
\<close>

inductive reachable :: "database \<Rightarrow> bool" where
  start: "reachable (init_db empty_db)"
| review: "reachable (db_file s) \<Longrightarrow> reachable (db_file (snd (book_detail py_int req book_id s)))"
| signup: "reachable (db_file s) \<Longrightarrow> reachable (db_file (snd (register gen_hash req s)))"
| recommend: "reachable (db_file s) \<Longrightarrow> reachable (db_file (snd (get_recommendations user_id s)))"

text \<open>The constraints that the schema declares (lines 52, 61, 72, 77-79).\<close>

definition pk_users :: "database \<Rightarrow> bool" where
  "pk_users db = distinct (map u_id (users db))"

definition pk_books :: "database \<Rightarrow> bool" where
  "pk_books db = distinct (map b_id (books db))"

definition pk_reviews :: "database \<Rightarrow> bool" where
  "pk_reviews db = distinct (map r_id (reviews db))"

definition unique_user_book :: "database \<Rightarrow> bool" where
  "unique_user_book db = distinct (map (\<lambda>r. (r_user_id r, r_book_id r)) (reviews db))"

definition fk_user :: "database \<Rightarrow> bool" where
  "fk_user db = (\<forall>r \<in> set (reviews db). r_user_id r \<in> set (map u_id (users db)))"

definition fk_book :: "database \<Rightarrow> bool" where
  "fk_book db = (\<forall>r \<in> set (reviews db). r_book_id r \<in> set (map b_id (books db)))"

text \<open>All of them together.\<close>

definition constraints :: "database \<Rightarrow> bool" where
  "constraints db =
     (pk_users db \<and> pk_books db \<and> pk_reviews db \<and> unique_user_book db \<and>
      fk_user db \<and> fk_book db)"

section \<open>Example databases\<close>

text \<open>
  A small catalogue with three science-fiction books and one classic. Ann likes one
  science-fiction book; Bob likes the other two and the classic; Cy has only a middling
  review; Dee has none.
\<close>

definition shelf :: database where
  "shelf =
     \<lparr>users =
        [\<lparr>u_id = 1, username = ''ann'', password_hash = ''h1''\<rparr>,
         \<lparr>u_id = 2, username = ''bob'', password_hash = ''h2''\<rparr>,
         \<lparr>u_id = 3, username = ''cy'', password_hash = ''h3''\<rparr>,
         \<lparr>u_id = 4, username = ''dee'', password_hash = ''h4''\<rparr>],
      books =
        [\<lparr>b_id = 1, title = ''Dune'', author = ''Herbert'', genre = ''Sci-Fi'',
          description = None\<rparr>,
         \<lparr>b_id = 2, title = ''Emma'', author = ''Austen'', genre = ''Classic'',
          description = None\<rparr>,
         \<lparr>b_id = 3, title = ''Ubik'', author = ''Dick'', genre = ''Sci-Fi'',
          description = None\<rparr>,
         \<lparr>b_id = 4, title = ''Solaris'', author = ''Lem'', genre = ''Sci-Fi'',
          description = None\<rparr>],
      reviews =
        [\<lparr>r_id = 1, r_user_id = 1, r_book_id = 1, rating = 5, review_text = None\<rparr>,
         \<lparr>r_id = 2, r_user_id = 2, r_book_id = 3, rating = 4, review_text = None\<rparr>,
         \<lparr>r_id = 3, r_user_id = 2, r_book_id = 4, rating = 4, review_text = None\<rparr>,
         \<lparr>r_id = 4, r_user_id = 2, r_book_id = 2, rating = 5, review_text = None\<rparr>,
         \<lparr>r_id = 5, r_user_id = 3, r_book_id = 2, rating = 3, review_text = None\<rparr>]\<rparr>"

definition shelf_state :: app_state where
  "shelf_state = \<lparr>db_file = shelf, g_database = True\<rparr>"

text \<open>
  The seeded catalogue after one reader has signed up and has rated its two Sci-Fi books
  (ids 2 and 4) with 5 and 4.
\<close>

definition two_scifi_rated :: database where
  "two_scifi_rated =
     (init_db empty_db)
       \<lparr>users := [\<lparr>u_id = 1, username = ''reader'', password_hash = ''h''\<rparr>],
        reviews :=
          [\<lparr>r_id = 1, r_user_id = 1, r_book_id = 2, rating = 5, review_text = None\<rparr>,
           \<lparr>r_id = 2, r_user_id = 1, r_book_id = 4, rating = 4, review_text = None\<rparr>]\<rparr>"

text \<open>
  The seeded catalogue after the reader has rated one book of each of its four genres
  (ids 1, 2, 3 and 6) with 5: four genres of equal count.
\<close>

definition four_genres_rated :: database where
  "four_genres_rated =
     (init_db empty_db)
       \<lparr>users := [\<lparr>u_id = 1, username = ''reader'', password_hash = ''h''\<rparr>],
        reviews :=
          [\<lparr>r_id = 1, r_user_id = 1, r_book_id = 1, rating = 5, review_text = None\<rparr>,
           \<lparr>r_id = 2, r_user_id = 1, r_book_id = 2, rating = 5, review_text = None\<rparr>,
           \<lparr>r_id = 3, r_user_id = 1, r_book_id = 3, rating = 5, review_text = None\<rparr>,
           \<lparr>r_id = 4, r_user_id = 1, r_book_id = 6, rating = 5, review_text = None\<rparr>]\<rparr>"

text \<open>
  The requests of that reader: signing up, and posting a review with the given rating
  and text fields.
\<close>

definition signup_request :: request where
  "signup_request =
     \<lparr>req_method = POST, session_user_id = None, form_rating = None,
      form_review_text = None, form_username = Some ''reader'', form_password = Some ''pw''\<rparr>"

definition post_rating :: "string option \<Rightarrow> string option \<Rightarrow> request" where
  "post_rating v txt =
     \<lparr>req_method = POST, session_user_id = Some 1, form_rating = v,
      form_review_text = txt, form_username = None, form_password = None\<rparr>"

text \<open>A parser that reads the single digits 1 to 9, for the examples.\<close>

definition digit_int :: "string \<Rightarrow> int option" where
  "digit_int v =
     (case v of
        [c] \<Rightarrow> if (49 :: nat) \<le> of_char c \<and> (of_char c :: nat) \<le> 57
               then Some (int (of_char c) - 48) else None
      | _ \<Rightarrow> None)"

text \<open>What Ann is recommended on \<open>shelf\<close>: the two Sci-Fi books she has not rated.\<close>

definition shelf_ann_rows :: "(book_row \<times> rat option) list" where
  "shelf_ann_rows =
     [(\<lparr>b_id = 4, title = ''Solaris'', author = ''Lem'', genre = ''Sci-Fi'',
        description = None\<rparr>, Some 4),
      (\<lparr>b_id = 3, title = ''Ubik'', author = ''Dick'', genre = ''Sci-Fi'',
        description = None\<rparr>, Some 4)]"

section \<open>Properties of the SQL fragment\<close>

lemma mset_place: "mset (place prec x xs) = add_mset x (mset xs)"
  by (induction xs) simp_all

lemma mset_order_by: "mset (order_by prec rows) = mset rows"
  unfolding order_by_def by (induction rows) (simp_all add: mset_place)

lemma set_order_by: "set (order_by prec rows) = set rows"
  using mset_order_by [of prec rows] by (metis set_mset_mset)

lemma length_order_by: "length (order_by prec rows) = length rows"
  using mset_order_by [of prec rows] by (metis size_mset)

lemma distinct_map_order_by: "distinct (map f (order_by prec rows)) = distinct (map f rows)"
proof -
  have "mset (map f (order_by prec rows)) = mset (map f rows)"
    by (simp add: mset_order_by)
  then show ?thesis by (rule mset_eq_imp_distinct_iff)
qed

lemma sorted_wrt_place:
  assumes total: "\<And>a b. \<not> prec a b \<Longrightarrow> prec b a"
    and trans: "\<And>a b c. prec a b \<Longrightarrow> prec b c \<Longrightarrow> prec a c"
    and srt: "sorted_wrt prec xs"
  shows "sorted_wrt prec (place prec x xs)"
  using srt
proof (induction xs)
  case Nil
  show ?case by simp
next
  case (Cons y ys)
  show ?case
  proof (cases "prec x y")
    case True
    with Cons.prems trans show ?thesis by auto
  next
    case False
    then have yx: "prec y x" by (rule total)
    have "\<forall>z \<in> set (place prec x ys). prec y z"
      using Cons.prems yx by (auto simp: set_mset_mset [symmetric] mset_place simp del: set_mset_mset)
    with False Cons show ?thesis by simp
  qed
qed

lemma sorted_wrt_order_by:
  assumes total: "\<And>a b. \<not> prec a b \<Longrightarrow> prec b a"
    and trans: "\<And>a b c. prec a b \<Longrightarrow> prec b c \<Longrightarrow> prec a c"
  shows "sorted_wrt prec (order_by prec rows)"
  unfolding order_by_def
  by (induction rows) (simp_all add: sorted_wrt_place [OF total trans])

lemma sorted_wrt_take_drop:
  assumes "sorted_wrt prec xs"
  shows "sorted_wrt prec (take n xs) \<and> (\<forall>p \<in> set (take n xs). \<forall>q \<in> set (drop n xs). prec p q)"
proof -
  have "sorted_wrt prec (take n xs @ drop n xs)" using assms by simp
  then show ?thesis unfolding sorted_wrt_append by blast
qed

lemma avg_ge_total: "\<not> avg_ge a b \<Longrightarrow> avg_ge b a"
  by (cases a; cases b) simp_all

lemma avg_ge_trans: "avg_ge a b \<Longrightarrow> avg_ge b c \<Longrightarrow> avg_ge a c"
  by (cases a; cases b; cases c) simp_all

lemma avg_ge_refl: "avg_ge a a"
  by (cases a) simp_all

lemma avg_ge_antisym: "avg_ge a b \<Longrightarrow> avg_ge b a \<Longrightarrow> a = b"
  by (cases a; cases b) simp_all

lemma of_char_nat_eq: "(of_char x :: nat) = of_char y \<Longrightarrow> x = y"
  by (simp add: of_char_eq_iff)

lemma text_le_total: "\<not> text_le a b \<Longrightarrow> text_le b a"
proof (induction a b rule: text_le.induct)
  case (1 ys)
  then show ?case by simp
next
  case (2 x xs)
  then show ?case by simp
next
  case (3 x xs y ys)
  from "3.prems" have nlt: "\<not> (of_char x :: nat) < of_char y" and nrec: "x = y \<longrightarrow> \<not> text_le xs ys"
    by simp_all
  show ?case
  proof (cases "x = y")
    case True
    with nrec "3.IH" show ?thesis by simp
  next
    case False
    then have "(of_char x :: nat) \<noteq> of_char y" using of_char_nat_eq by blast
    with nlt have "(of_char y :: nat) < of_char x" by linarith
    then show ?thesis by simp
  qed
qed

lemma text_le_refl: "text_le a a"
  by (induction a) simp_all

lemma text_le_trans: "text_le a b \<Longrightarrow> text_le b c \<Longrightarrow> text_le a c"
proof (induction a b arbitrary: c rule: text_le.induct)
  case (1 ys)
  show ?case by simp
next
  case (2 x xs)
  then show ?case by simp
next
  case (3 x xs y ys)
  show ?case
  proof (cases c)
    case Nil
    with "3.prems" show ?thesis by simp
  next
    case (Cons z zs)
    from "3.prems" Cons have ab: "(of_char x :: nat) < of_char y \<or> (x = y \<and> text_le xs ys)"
      and bc: "(of_char y :: nat) < of_char z \<or> (y = z \<and> text_le ys zs)" by simp_all
    show ?thesis
    proof (cases "x = y \<and> y = z")
      case True
      with ab bc have "text_le xs ys" "text_le ys zs" by simp_all
      then have "text_le xs zs" using "3.IH" True by blast
      with True Cons show ?thesis by simp
    next
      case False
      with ab bc have "(of_char x :: nat) < of_char z" by auto
      with Cons show ?thesis by simp
    qed
  qed
qed

lemma text_le_antisym: "text_le a b \<Longrightarrow> text_le b a \<Longrightarrow> a = b"
proof (induction a b rule: text_le.induct)
  case (1 ys)
  then show ?case by (cases ys) simp_all
next
  case (2 x xs)
  then show ?case by simp
next
  case (3 x xs y ys)
  then show ?case by (cases "x = y") auto
qed

lemma by_avg_desc_total: "\<not> by_avg_desc p q \<Longrightarrow> by_avg_desc q p"
  unfolding by_avg_desc_def by (rule avg_ge_total)

lemma by_avg_desc_trans: "by_avg_desc p q \<Longrightarrow> by_avg_desc q r \<Longrightarrow> by_avg_desc p r"
  unfolding by_avg_desc_def by (rule avg_ge_trans)

lemma by_avg_desc_title_asc_total:
  assumes "\<not> by_avg_desc_title_asc p q"
  shows "by_avg_desc_title_asc q p"
proof (cases "avg_ge (snd q) (snd p)")
  case False
  then have "avg_ge (snd p) (snd q)" by (rule avg_ge_total)
  with assms False show ?thesis unfolding by_avg_desc_title_asc_def by simp
next
  case qp: True
  show ?thesis
  proof (cases "avg_ge (snd p) (snd q)")
    case False
    then show ?thesis unfolding by_avg_desc_title_asc_def by simp
  next
    case True
    with qp have eq: "snd p = snd q" by (simp add: avg_ge_antisym)
    with assms qp have "\<not> text_le (title (fst p)) (title (fst q))"
      unfolding by_avg_desc_title_asc_def by simp
    then have "text_le (title (fst q)) (title (fst p))" by (rule text_le_total)
    with eq show ?thesis unfolding by_avg_desc_title_asc_def by simp
  qed
qed

lemma by_avg_desc_title_asc_trans:
  assumes pq: "by_avg_desc_title_asc p q" and qr: "by_avg_desc_title_asc q r"
  shows "by_avg_desc_title_asc p r"
proof -
  from pq have 1: "\<not> avg_ge (snd q) (snd p) \<or> (snd p = snd q \<and> text_le (title (fst p)) (title (fst q)))"
    unfolding by_avg_desc_title_asc_def .
  from qr have 2: "\<not> avg_ge (snd r) (snd q) \<or> (snd q = snd r \<and> text_le (title (fst q)) (title (fst r)))"
    unfolding by_avg_desc_title_asc_def .
  show ?thesis
  proof (cases "snd p = snd q \<and> snd q = snd r")
    case True
    with 1 2 have "text_le (title (fst p)) (title (fst q))" "text_le (title (fst q)) (title (fst r))"
      by (simp_all add: avg_ge_refl)
    then have "text_le (title (fst p)) (title (fst r))" by (rule text_le_trans)
    with True show ?thesis unfolding by_avg_desc_title_asc_def by simp
  next
    case False
    have "\<not> avg_ge (snd r) (snd p)"
    proof
      assume rp: "avg_ge (snd r) (snd p)"
      from 1 show False
      proof
        assume nqp: "\<not> avg_ge (snd q) (snd p)"
        from 2 show False
        proof
          assume "\<not> avg_ge (snd r) (snd q)"
          then have "avg_ge (snd q) (snd r)" by (rule avg_ge_total)
          then have "avg_ge (snd q) (snd p)" using rp avg_ge_trans by blast
          with nqp show False by simp
        next
          assume "snd q = snd r \<and> text_le (title (fst q)) (title (fst r))"
          with rp nqp show False by simp
        qed
      next
        assume e: "snd p = snd q \<and> text_le (title (fst p)) (title (fst q))"
        from 2 show False
        proof
          assume "\<not> avg_ge (snd r) (snd q)"
          with e rp show False by simp
        next
          assume "snd q = snd r \<and> text_le (title (fst q)) (title (fst r))"
          with e False show False by simp
        qed
      qed
    qed
    then show ?thesis unfolding by_avg_desc_title_asc_def by simp
  qed
qed

section \<open>Evaluation of the examples\<close>

lemmas db_eval = get_recommendations_def get_db_def favorite_genres_def genre_counts_def
  liked_genres_def order_by_def global_top_def genre_top_def reviewed_book_ids_def
  books_with_avg_def avg_rating_def by_avg_desc_def by_avg_desc_title_asc_def Let_def

lemma shelf_ann: "fst (get_recommendations 1 shelf_state) = Inr shelf_ann_rows"
  by (simp add: db_eval shelf_state_def shelf_def shelf_ann_rows_def)

section \<open>Properties of the recommendation logic\<close>

lemma get_db_file: "db_file (get_db s) = db_file s"
  by (simp add: get_db_def)

lemma get_db_eq: "get_db s = s\<lparr>g_database := True\<rparr>"
  by (simp add: get_db_def)

lemma snd_get_recommendations: "snd (get_recommendations u s) = get_db s"
  by (simp add: get_recommendations_def Let_def)

lemma fst_get_recommendations:
  "fst (get_recommendations u s) =
     (if u < - (2 ^ 63) \<or> 2 ^ 63 \<le> u then Inl OverflowError
      else if favorite_genres (db_file s) u = [] then Inr (global_top (db_file s))
      else if genre_top (db_file s) (favorite_genres (db_file s) u) (reviewed_book_ids (db_file s) u) = []
           then Inl OperationalError
           else Inr (genre_top (db_file s) (favorite_genres (db_file s) u) (reviewed_book_ids (db_file s) u)))"
  by (simp add: get_recommendations_def Let_def get_db_file)

text \<open>
  Claim C7. Two consecutive calls of \<^verbatim>\<open>get_recommendations\<close> for the same user, the
  second on the state the first leaves, return the same value (the same ordered rows, or
  the same exception).
\<close>

theorem recommend_idempotent:
  "fst (get_recommendations user_id (snd (get_recommendations user_id s))) =
   fst (get_recommendations user_id s)"
  by (simp add: fst_get_recommendations snd_get_recommendations get_db_file)

text \<open>
  Claim C8, as amended. The call leaves the three tables as they are; the only state it
  writes is the connection cached in \<^verbatim>\<open>g._database\<close>, which \<^verbatim>\<open>get_db\<close> opens when no
  connection is open yet and leaves alone when one is.
\<close>

theorem recommend_frame:
  "snd (get_recommendations user_id s) = s\<lparr>g_database := True\<rparr>"
  by (simp add: snd_get_recommendations get_db_eq)

text \<open>
  Claim C8, as stated, fails: called before any connection is open, the state after the
  call differs from the state before it.
\<close>

theorem recommend_opens_connection:
  "snd (get_recommendations 1 \<lparr>db_file = init_db empty_db, g_database = False\<rparr>)
     \<noteq> \<lparr>db_file = init_db empty_db, g_database = False\<rparr>"
  by (simp add: snd_get_recommendations get_db_def)

lemma distinct_books_with_avg:
  "distinct (map b_id (books db)) \<Longrightarrow> distinct (map (b_id \<circ> fst) (books_with_avg db keep))"
  by (simp add: books_with_avg_def comp_def distinct_map_filter)

lemma distinct_take_order_by:
  "distinct (map f rows) \<Longrightarrow> distinct (map f (take n (order_by prec rows)))"
  by (simp add: take_map [symmetric] distinct_map_order_by)

lemma distinct_global_top:
  "distinct (map b_id (books db)) \<Longrightarrow> distinct (map (b_id \<circ> fst) (global_top db))"
  unfolding global_top_def by (intro distinct_take_order_by distinct_books_with_avg)

lemma distinct_genre_top:
  "distinct (map b_id (books db)) \<Longrightarrow> distinct (map (b_id \<circ> fst) (genre_top db gs ex))"
  unfolding genre_top_def Let_def by (intro distinct_take_order_by distinct_books_with_avg)

lemma length_global_top: "length (global_top db) \<le> 5"
  by (simp add: global_top_def)

lemma length_genre_top: "length (genre_top db gs ex) \<le> 5"
  by (simp add: genre_top_def Let_def)

text \<open>
  Claim C6. In a database whose \<^verbatim>\<open>books\<close> have distinct ids (the primary key of line 61),
  every list of rows that \<^verbatim>\<open>get_recommendations\<close> returns has at most 5 rows and no
  book twice.
\<close>

theorem recommend_at_most_five_distinct:
  assumes pk: "distinct (map b_id (books (db_file s)))"
    and ret: "fst (get_recommendations user_id s) = Inr rows"
  shows "length rows \<le> 5 \<and> distinct (map (b_id \<circ> fst) rows) \<and> distinct rows"
proof -
  have "rows = global_top (db_file s) \<or>
        rows = genre_top (db_file s) (favorite_genres (db_file s) user_id)
                 (reviewed_book_ids (db_file s) user_id)"
    using ret by (auto simp: fst_get_recommendations split: if_splits)
  then have "length rows \<le> 5 \<and> distinct (map (b_id \<circ> fst) rows)"
    using pk length_global_top length_genre_top distinct_global_top distinct_genre_top
    by blast
  then show ?thesis using distinct_map by blast
qed

theorem recommend_at_most_five_distinct_witness:
  "distinct (map b_id (books (db_file shelf_state))) \<and>
   fst (get_recommendations 1 shelf_state) = Inr shelf_ann_rows \<and>
   length shelf_ann_rows \<le> 5 \<and> distinct (map (b_id \<circ> fst) shelf_ann_rows) \<and>
   distinct shelf_ann_rows"
proof -
  have pk: "distinct (map b_id (books (db_file shelf_state)))"
    by (simp add: shelf_state_def shelf_def)
  show ?thesis
    using pk shelf_ann recommend_at_most_five_distinct [OF pk shelf_ann] by blast
qed

lemma order_by_Nil: "order_by prec [] = []"
  by (simp add: order_by_def)

lemma top_rows:
  assumes total: "\<forall>a b. \<not> prec a b \<longrightarrow> prec b a"
    and trans: "\<forall>a b c. prec a b \<longrightarrow> prec b c \<longrightarrow> prec a c"
  shows "mset (take n (order_by prec pool) @ drop n (order_by prec pool)) = mset pool \<and>
         length (take n (order_by prec pool)) = min n (length pool) \<and>
         sorted_wrt prec (take n (order_by prec pool)) \<and>
         (\<forall>p \<in> set (take n (order_by prec pool)). \<forall>q \<in> set (drop n (order_by prec pool)). prec p q)"
proof -
  have t1: "\<And>a b. \<not> prec a b \<Longrightarrow> prec b a" using total by blast
  have t2: "\<And>a b c. prec a b \<Longrightarrow> prec b c \<Longrightarrow> prec a c" using trans by blast
  have "sorted_wrt prec (order_by prec pool)"
    using t1 t2 by (rule sorted_wrt_order_by)
  then show ?thesis
    using sorted_wrt_take_drop [of prec "order_by prec pool" n]
    by (simp add: mset_order_by length_order_by min.commute)
qed

lemma no_liked_genres:
  "filter (\<lambda>r. r_user_id r = u \<and> 4 \<le> rating r) (reviews db) = [] \<Longrightarrow> liked_genres db u = []"
  by (simp add: liked_genres_def)

lemma favorite_genres_Nil: "liked_genres db u = [] \<Longrightarrow> favorite_genres db u = []"
  by (simp add: favorite_genres_def genre_counts_def Let_def order_by_Nil)

lemma nulls_last:
  assumes "sorted_wrt (\<lambda>p q. avg_ge (snd p) (snd q)) rows"
    and "i < j" and "j < length rows" and "snd (rows ! i) = None"
  shows "snd (rows ! j) = None"
proof -
  have "avg_ge (snd (rows ! i)) (snd (rows ! j))"
    using assms(1-3) by (simp add: sorted_wrt_iff_nth_less)
  with assms(4) show ?thesis by (cases "snd (rows ! j)") simp_all
qed

lemma global_top_spec:
  "\<exists>rest.
     length (global_top db) = min 5 (length (books db)) \<and>
     mset (global_top db @ rest) = mset (map (\<lambda>b. (b, avg_rating (reviews db) (b_id b))) (books db)) \<and>
     sorted_wrt (\<lambda>p q. avg_ge (snd p) (snd q)) (global_top db) \<and>
     (\<forall>p \<in> set (global_top db). \<forall>q \<in> set rest. avg_ge (snd p) (snd q))"
proof -
  let ?pool = "books_with_avg db (\<lambda>b. True)"
  have pool: "?pool = map (\<lambda>b. (b, avg_rating (reviews db) (b_id b))) (books db)"
    by (simp add: books_with_avg_def)
  have len: "length ?pool = length (books db)" by (simp add: pool)
  have rel: "by_avg_desc = (\<lambda>p q. avg_ge (snd p) (snd q))"
    by (simp add: by_avg_desc_def fun_eq_iff)
  have tot: "\<forall>a b. \<not> by_avg_desc a b \<longrightarrow> by_avg_desc b a"
    using by_avg_desc_total by blast
  have tr: "\<forall>a b c. by_avg_desc a b \<longrightarrow> by_avg_desc b c \<longrightarrow> by_avg_desc a c"
    using by_avg_desc_trans by blast
  note t = top_rows [where prec = by_avg_desc and n = 5 and pool = ?pool, OF tot tr]
  let ?rest = "drop 5 (order_by by_avg_desc ?pool)"
  have "length (global_top db) = min 5 (length (books db))"
    using t len by (simp add: global_top_def)
  moreover have "mset (global_top db @ ?rest) =
      mset (map (\<lambda>b. (b, avg_rating (reviews db) (b_id b))) (books db))"
    using t pool by (simp add: global_top_def)
  moreover have "sorted_wrt (\<lambda>p q. avg_ge (snd p) (snd q)) (global_top db)"
  proof -
    have "sorted_wrt by_avg_desc (take 5 (order_by by_avg_desc ?pool))" using t by blast
    then show ?thesis unfolding global_top_def rel .
  qed
  moreover have "\<forall>p \<in> set (global_top db). \<forall>q \<in> set ?rest. avg_ge (snd p) (snd q)"
  proof -
    have "\<forall>p \<in> set (take 5 (order_by by_avg_desc ?pool)). \<forall>q \<in> set ?rest. by_avg_desc p q"
      using t by blast
    then show ?thesis unfolding global_top_def by_avg_desc_def .
  qed
  ultimately show ?thesis by blast
qed

lemma avg_ge_iff:
  "avg_ge a b \<longleftrightarrow> (b = None \<or> (\<exists>x y. a = Some x \<and> b = Some y \<and> y \<le> x))"
  by (cases a; cases b) simp_all

text \<open>
  Claim C3. For a user id that SQLite can bind (64 bits) and that has no review of rating
  4 or more (no review at all included), \<^verbatim>\<open>get_recommendations\<close> returns rows such that:
  there are 5 of them, or as many as there are books when these are fewer; together with
  the rows cut off by \<^verbatim>\<open>LIMIT 5\<close> they are all the books of the table, each with the mean
  of the ratings of its reviews (\<^verbatim>\<open>NULL\<close> when it has none), so no book is excluded for
  having been rated by the user; a row never comes before a row of greater average, nor a
  row without average before a row with one, and the same holds between the rows cut off
  and the rows returned; a book without ratings is followed only by books without
  ratings.
\<close>

theorem no_affinity_global_ranking:
  assumes lo: "- (2 ^ 63) \<le> user_id" and hi: "user_id < 2 ^ 63"
    and none: "filter (\<lambda>r. r_user_id r = user_id \<and> 4 \<le> rating r) (reviews (db_file s)) = []"
  shows "\<exists>rows rest.
      fst (get_recommendations user_id s) = Inr rows \<and>
      length rows = min 5 (length (books (db_file s))) \<and>
      mset (rows @ rest) =
        mset (map (\<lambda>b. (b, let scores = map rating
                                   (filter (\<lambda>r. r_book_id r = b_id b) (reviews (db_file s)))
                           in if scores = [] then None
                              else Some (of_int (sum_list scores) / of_int (int (length scores)))))
               (books (db_file s))) \<and>
      sorted_wrt (\<lambda>p q. snd q = None \<or> (\<exists>x y. snd p = Some x \<and> snd q = Some y \<and> y \<le> x)) rows \<and>
      (\<forall>p \<in> set rows. \<forall>q \<in> set rest.
         snd q = None \<or> (\<exists>x y. snd p = Some x \<and> snd q = Some y \<and> y \<le> x)) \<and>
      (\<forall>i j. i < j \<and> j < length rows \<and> snd (rows ! i) = None \<longrightarrow> snd (rows ! j) = None)"
proof -
  have ret: "fst (get_recommendations user_id s) = Inr (global_top (db_file s))"
    using lo hi none by (simp add: fst_get_recommendations favorite_genres_Nil no_liked_genres)
  obtain rest where r:
    "length (global_top (db_file s)) = min 5 (length (books (db_file s)))"
    "mset (global_top (db_file s) @ rest) =
       mset (map (\<lambda>b. (b, avg_rating (reviews (db_file s)) (b_id b))) (books (db_file s)))"
    "sorted_wrt (\<lambda>p q. avg_ge (snd p) (snd q)) (global_top (db_file s))"
    "\<forall>p \<in> set (global_top (db_file s)). \<forall>q \<in> set rest. avg_ge (snd p) (snd q)"
    using global_top_spec [of "db_file s"] by blast
  have "\<forall>i j. i < j \<and> j < length (global_top (db_file s)) \<and> snd (global_top (db_file s) ! i) = None
          \<longrightarrow> snd (global_top (db_file s) ! j) = None"
    using nulls_last [OF r(3)] by blast
  with ret r have "\<exists>rows rest.
      fst (get_recommendations user_id s) = Inr rows \<and>
      length rows = min 5 (length (books (db_file s))) \<and>
      mset (rows @ rest) =
        mset (map (\<lambda>b. (b, avg_rating (reviews (db_file s)) (b_id b))) (books (db_file s))) \<and>
      sorted_wrt (\<lambda>p q. avg_ge (snd p) (snd q)) rows \<and>
      (\<forall>p \<in> set rows. \<forall>q \<in> set rest. avg_ge (snd p) (snd q)) \<and>
      (\<forall>i j. i < j \<and> j < length rows \<and> snd (rows ! i) = None \<longrightarrow> snd (rows ! j) = None)"
    by blast
  then show ?thesis unfolding avg_ge_iff avg_rating_def .
qed

theorem no_affinity_global_ranking_witness:
  "- (2 ^ 63) \<le> (3 :: int) \<and> (3 :: int) < 2 ^ 63 \<and>
   filter (\<lambda>r. r_user_id r = 3 \<and> 4 \<le> rating r) (reviews (db_file shelf_state)) = [] \<and>
   (\<exists>rows rest.
      fst (get_recommendations 3 shelf_state) = Inr rows \<and>
      length rows = min 5 (length (books (db_file shelf_state))) \<and>
      mset (rows @ rest) =
        mset (map (\<lambda>b. (b, let scores = map rating
                                   (filter (\<lambda>r. r_book_id r = b_id b) (reviews (db_file shelf_state)))
                           in if scores = [] then None
                              else Some (of_int (sum_list scores) / of_int (int (length scores)))))
               (books (db_file shelf_state))) \<and>
      sorted_wrt (\<lambda>p q. snd q = None \<or> (\<exists>x y. snd p = Some x \<and> snd q = Some y \<and> y \<le> x)) rows \<and>
      (\<forall>p \<in> set rows. \<forall>q \<in> set rest.
         snd q = None \<or> (\<exists>x y. snd p = Some x \<and> snd q = Some y \<and> y \<le> x)) \<and>
      (\<forall>i j. i < j \<and> j < length rows \<and> snd (rows ! i) = None \<longrightarrow> snd (rows ! j) = None))"
proof -
  have lo: "- (2 ^ 63) \<le> (3 :: int)" and hi: "(3 :: int) < 2 ^ 63" by simp_all
  have h: "filter (\<lambda>r. r_user_id r = 3 \<and> 4 \<le> rating r) (reviews (db_file shelf_state)) = []"
    by (simp add: shelf_state_def shelf_def)
  show ?thesis
    using lo hi h no_affinity_global_ranking [OF lo hi h] by blast
qed

lemma liked_genres_nonempty:
  assumes fk: "fk_book db"
    and liked: "filter (\<lambda>r. r_user_id r = u \<and> 4 \<le> rating r) (reviews db) \<noteq> []"
  shows "liked_genres db u \<noteq> []"
proof -
  from liked obtain r where r: "r \<in> set (reviews db)" "r_user_id r = u" "4 \<le> rating r"
    by (auto simp: filter_empty_conv)
  from fk r(1) have "r_book_id r \<in> set (map b_id (books db))" unfolding fk_book_def by blast
  then obtain b where b: "b \<in> set (books db)" "r_book_id r = b_id b" by auto
  have "genre b \<in> set (liked_genres db u)"
    unfolding liked_genres_def using r b by auto
  then show ?thesis by auto
qed

lemma genre_counts_fst:
  "map fst (genre_counts db u) = order_by (\<lambda>g h. text_le h g) (remdups (liked_genres db u))"
  by (simp add: genre_counts_def Let_def comp_def)

lemma genre_counts_snd:
  "p \<in> set (genre_counts db u) \<Longrightarrow> snd p = count_list (liked_genres db u) (fst p)"
  by (auto simp: genre_counts_def Let_def)

lemma genre_counts_mem:
  "h \<in> set (liked_genres db u) \<Longrightarrow> (h, count_list (liked_genres db u) h) \<in> set (genre_counts db u)"
  by (simp add: genre_counts_def Let_def set_order_by)

lemma distinct_genre_counts: "distinct (map fst (genre_counts db u))"
  using distinct_map_order_by [of "\<lambda>x. x" "\<lambda>g h. text_le h g" "remdups (liked_genres db u)"]
  by (simp add: genre_counts_fst)

lemma length_genre_counts: "length (genre_counts db u) = card (set (liked_genres db u))"
proof -
  have "length (genre_counts db u) = length (map fst (genre_counts db u))" by simp
  also have "\<dots> = length (remdups (liked_genres db u))"
    by (simp only: genre_counts_fst length_order_by)
  finally show ?thesis by (simp add: length_remdups_card_conv)
qed

lemma favorite_genres_spec:
  fixes db u
  defines "liked \<equiv> liked_genres db u"
  defines "gs \<equiv> favorite_genres db u"
  shows "distinct gs \<and> set gs \<subseteq> set liked \<and> length gs = min 3 (card (set liked)) \<and>
     sorted_wrt (\<lambda>g h. count_list liked h \<le> count_list liked g) gs \<and>
     (\<forall>g \<in> set gs. \<forall>h \<in> set liked - set gs. count_list liked h \<le> count_list liked g)"
proof -
  let ?prec = "\<lambda>p q :: string \<times> nat. snd q \<le> snd p"
  let ?gc = "genre_counts db u"
  let ?ranked = "order_by ?prec ?gc"
  have tot: "\<forall>a b. \<not> ?prec a b \<longrightarrow> ?prec b a" by auto
  have tr: "\<forall>a b c. ?prec a b \<longrightarrow> ?prec b c \<longrightarrow> ?prec a c" by auto
  note t = top_rows [where prec = ?prec and n = 3 and pool = ?gc, OF tot tr]
  have gs: "gs = map fst (take 3 ?ranked)" by (simp add: gs_def favorite_genres_def)
  have sub: "set (take 3 ?ranked) \<subseteq> set ?gc"
    using set_take_subset [of 3 ?ranked] by (simp add: set_order_by)
  have d: "distinct (map fst ?ranked)"
    by (simp add: distinct_map_order_by distinct_genre_counts)
  have dgs: "distinct gs"
    unfolding gs take_map [symmetric] using d by (rule distinct_take)
  have setgs: "set gs \<subseteq> set liked"
  proof
    fix g assume "g \<in> set gs"
    then have "g \<in> fst ` set (take 3 ?ranked)" by (simp only: gs set_map)
    then obtain p where "p \<in> set (take 3 ?ranked)" "g = fst p" by blast
    with sub have "g \<in> fst ` set ?gc" by blast
    then have "g \<in> set (map fst ?gc)" by (simp only: set_map)
    then show "g \<in> set liked" by (simp add: genre_counts_fst set_order_by liked_def)
  qed
  have len: "length gs = min 3 (card (set liked))"
  proof -
    have "length (take 3 ?ranked) = min 3 (length ?gc)" using t by blast
    then show ?thesis by (simp only: gs length_map length_genre_counts liked_def)
  qed
  have snd_eq: "snd p = count_list liked (fst p)" if "p \<in> set (take 3 ?ranked)" for p
  proof -
    from that sub have "p \<in> set ?gc" by blast
    then show ?thesis unfolding liked_def by (rule genre_counts_snd)
  qed
  have srt: "sorted_wrt (\<lambda>g h. count_list liked h \<le> count_list liked g) gs"
  proof -
    have s1: "sorted_wrt ?prec (take 3 ?ranked)" using t by blast
    have "sorted_wrt (\<lambda>p q. count_list liked (fst q) \<le> count_list liked (fst p)) (take 3 ?ranked)"
    proof (rule sorted_wrt_mono_rel [OF _ s1])
      fix p q assume pq: "p \<in> set (take 3 ?ranked)" "q \<in> set (take 3 ?ranked)" "snd q \<le> snd p"
      from pq(3) show "count_list liked (fst q) \<le> count_list liked (fst p)"
        by (simp only: snd_eq [OF pq(1)] snd_eq [OF pq(2)])
    qed
    then show ?thesis by (simp only: gs sorted_wrt_map)
  qed
  have top: "\<forall>g \<in> set gs. \<forall>h \<in> set liked - set gs. count_list liked h \<le> count_list liked g"
  proof (intro ballI)
    fix g h assume g: "g \<in> set gs" and h: "h \<in> set liked - set gs"
    from g have "g \<in> fst ` set (take 3 ?ranked)" by (simp only: gs set_map)
    then obtain p where p: "p \<in> set (take 3 ?ranked)" "g = fst p" by blast
    let ?q = "(h, count_list liked h)"
    from h have hl: "h \<in> set (liked_genres db u)" by (simp add: liked_def)
    have "?q \<in> set ?gc" unfolding liked_def using hl by (rule genre_counts_mem)
    then have "?q \<in> set ?ranked" by (simp only: set_order_by)
    then have "?q \<in> set (take 3 ?ranked @ drop 3 ?ranked)" by (simp only: append_take_drop_id)
    then have either: "?q \<in> set (take 3 ?ranked) \<or> ?q \<in> set (drop 3 ?ranked)"
      by (simp only: set_append Un_iff)
    have notin: "?q \<notin> set (take 3 ?ranked)"
    proof
      assume "?q \<in> set (take 3 ?ranked)"
      then have "fst ?q \<in> fst ` set (take 3 ?ranked)" by (rule imageI)
      then have "h \<in> set gs" by (simp only: gs set_map fst_conv)
      with h show False by simp
    qed
    with either have "?q \<in> set (drop 3 ?ranked)" by blast
    with t p(1) have "snd ?q \<le> snd p" by blast
    then have "count_list liked h \<le> snd p" by simp
    then show "count_list liked h \<le> count_list liked g"
      by (simp only: snd_eq [OF p(1)] p(2))
  qed
  from dgs setgs len srt top show ?thesis by blast
qed

lemma count_map_genre:
  "count_list (map genre (filter (\<lambda>b. k = b_id b) bs)) g =
     length (filter (\<lambda>b. b_id b = k \<and> genre b = g) bs)"
  by (induction bs) auto

lemma count_joined:
  "count_list (concat (map (\<lambda>r. map genre (filter (\<lambda>b. r_book_id r = b_id b) bs)) rs)) g =
     length (filter (\<lambda>(r, b). b_id b = r_book_id r \<and> genre b = g) (List.product rs bs))"
proof (induction rs)
  case Nil
  show ?case by simp
next
  case (Cons r rs)
  have "length (filter (\<lambda>(r, b). b_id b = r_book_id r \<and> genre b = g) (map (Pair r) bs)) =
        length (filter (\<lambda>b. b_id b = r_book_id r \<and> genre b = g) bs)"
    by (simp add: filter_map comp_def)
  with Cons show ?case by (simp add: count_map_genre)
qed

lemma count_liked_genres:
  "count_list (liked_genres db u) g =
     length (filter (\<lambda>(r, b). b_id b = r_book_id r \<and> genre b = g)
        (List.product (filter (\<lambda>r. r_user_id r = u \<and> 4 \<le> rating r) (reviews db)) (books db)))"
  unfolding liked_genres_def by (rule count_joined)

lemma set_liked_genres:
  "set (liked_genres db u) = {g. 0 < count_list (liked_genres db u) g}"
proof -
  have "g \<in> set (liked_genres db u) \<longleftrightarrow> 0 < count_list (liked_genres db u) g" for g
    using count_list_0_iff [of "liked_genres db u" g] by linarith
  then show ?thesis by blast
qed

lemma favorite_genres_counts:
  "distinct (favorite_genres db u) \<and>
   (\<forall>g \<in> set (favorite_genres db u).
      0 < length (filter (\<lambda>(r, b). b_id b = r_book_id r \<and> genre b = g)
            (List.product (filter (\<lambda>r. r_user_id r = u \<and> 4 \<le> rating r) (reviews db)) (books db)))) \<and>
   length (favorite_genres db u) =
     min 3 (card {g. 0 < length (filter (\<lambda>(r, b). b_id b = r_book_id r \<and> genre b = g)
            (List.product (filter (\<lambda>r. r_user_id r = u \<and> 4 \<le> rating r) (reviews db)) (books db)))}) \<and>
   sorted_wrt (\<lambda>g h.
       length (filter (\<lambda>(r, b). b_id b = r_book_id r \<and> genre b = h)
            (List.product (filter (\<lambda>r. r_user_id r = u \<and> 4 \<le> rating r) (reviews db)) (books db)))
       \<le> length (filter (\<lambda>(r, b). b_id b = r_book_id r \<and> genre b = g)
            (List.product (filter (\<lambda>r. r_user_id r = u \<and> 4 \<le> rating r) (reviews db)) (books db))))
     (favorite_genres db u) \<and>
   (\<forall>g \<in> set (favorite_genres db u). \<forall>h. h \<notin> set (favorite_genres db u) \<longrightarrow>
       length (filter (\<lambda>(r, b). b_id b = r_book_id r \<and> genre b = h)
            (List.product (filter (\<lambda>r. r_user_id r = u \<and> 4 \<le> rating r) (reviews db)) (books db)))
       \<le> length (filter (\<lambda>(r, b). b_id b = r_book_id r \<and> genre b = g)
            (List.product (filter (\<lambda>r. r_user_id r = u \<and> 4 \<le> rating r) (reviews db)) (books db))))"
proof -
  let ?liked = "liked_genres db u"
  let ?gs = "favorite_genres db u"
  let ?cnt = "\<lambda>g. length (filter (\<lambda>(r, b). b_id b = r_book_id r \<and> genre b = g)
      (List.product (filter (\<lambda>r. r_user_id r = u \<and> 4 \<le> rating r) (reviews db)) (books db)))"
  have cnt: "count_list ?liked g = ?cnt g" for g by (rule count_liked_genres)
  have liked: "set ?liked = {g. 0 < ?cnt g}"
    using set_liked_genres [of db u] by (simp only: cnt)
  note sp = favorite_genres_spec [of db u]
  from sp have d: "distinct ?gs" and sub: "set ?gs \<subseteq> set ?liked"
    and len: "length ?gs = min 3 (card (set ?liked))"
    and srt: "sorted_wrt (\<lambda>g h. count_list ?liked h \<le> count_list ?liked g) ?gs"
    and top: "\<forall>g \<in> set ?gs. \<forall>h \<in> set ?liked - set ?gs. count_list ?liked h \<le> count_list ?liked g"
    by blast+
  have pos: "\<forall>g \<in> set ?gs. 0 < ?cnt g" using sub liked by blast
  have len': "length ?gs = min 3 (card {g. 0 < ?cnt g})" using len by (simp only: liked)
  have srt': "sorted_wrt (\<lambda>g h. ?cnt h \<le> ?cnt g) ?gs" using srt by (simp only: cnt)
  have top': "\<forall>g \<in> set ?gs. \<forall>h. h \<notin> set ?gs \<longrightarrow> ?cnt h \<le> ?cnt g"
  proof (intro ballI allI impI)
    fix g h assume g: "g \<in> set ?gs" and h: "h \<notin> set ?gs"
    show "?cnt h \<le> ?cnt g"
    proof (cases "h \<in> set ?liked")
      case True
      with g h top have "count_list ?liked h \<le> count_list ?liked g" by blast
      then show ?thesis by (simp only: cnt)
    next
      case False
      then have "\<not> 0 < ?cnt h" using liked by blast
      then show ?thesis by simp
    qed
  qed
  from d pos len' srt' top' show ?thesis by blast
qed

lemma favorite_genres_nonempty:
  assumes fk: "fk_book db"
    and high: "filter (\<lambda>r. r_user_id r = u \<and> 4 \<le> rating r) (reviews db) \<noteq> []"
  shows "favorite_genres db u \<noteq> []"
proof -
  have "liked_genres db u \<noteq> []" using fk high by (rule liked_genres_nonempty)
  then have "0 < card (set (liked_genres db u))" by (simp add: card_gt_0_iff)
  with favorite_genres_spec [of db u] have "0 < length (favorite_genres db u)" by simp
  then show ?thesis by auto
qed

text \<open>
  Claim C4. For a user id that SQLite can bind, when every review refers to a book of the
  \<^verbatim>\<open>books\<close> table (the foreign key of line 78) and the user has a review of rating 4 or
  more: count for a genre the pairs of such a review and the book it is about, when the
  book has that genre. The favourite genres are not empty, pairwise different and of
  positive count; they are 3, or as many as there are genres of positive count when these
  are fewer; they are in descending order of count; no genre left out has a greater count
  than a genre taken; and \<^verbatim>\<open>get_recommendations\<close> goes on with the query for exactly these
  genres.
\<close>

theorem favorite_genres_most_frequent:
  assumes lo: "- (2 ^ 63) \<le> user_id" and hi: "user_id < 2 ^ 63"
    and fk: "fk_book (db_file s)"
    and high: "filter (\<lambda>r. r_user_id r = user_id \<and> 4 \<le> rating r) (reviews (db_file s)) \<noteq> []"
  shows "let joined = List.product
               (filter (\<lambda>r. r_user_id r = user_id \<and> 4 \<le> rating r) (reviews (db_file s)))
               (books (db_file s));
             cnt = (\<lambda>g. length (filter (\<lambda>(r, b). b_id b = r_book_id r \<and> genre b = g) joined));
             gs = favorite_genres (db_file s) user_id;
             rows = genre_top (db_file s) gs (reviewed_book_ids (db_file s) user_id)
         in gs \<noteq> [] \<and> distinct gs \<and> (\<forall>g \<in> set gs. 0 < cnt g) \<and>
            length gs = min 3 (card {g. 0 < cnt g}) \<and>
            sorted_wrt (\<lambda>g h. cnt h \<le> cnt g) gs \<and>
            (\<forall>g \<in> set gs. \<forall>h. h \<notin> set gs \<longrightarrow> cnt h \<le> cnt g) \<and>
            fst (get_recommendations user_id s) =
              (if rows = [] then Inl OperationalError else Inr rows)"
proof -
  let ?gs = "favorite_genres (db_file s) user_id"
  have ne: "?gs \<noteq> []" using fk high by (rule favorite_genres_nonempty)
  have ret: "fst (get_recommendations user_id s) =
      (if genre_top (db_file s) ?gs (reviewed_book_ids (db_file s) user_id) = []
       then Inl OperationalError
       else Inr (genre_top (db_file s) ?gs (reviewed_book_ids (db_file s) user_id)))"
    using ne lo hi by (simp add: fst_get_recommendations)
  from ne ret favorite_genres_counts [of "db_file s" user_id]
  show ?thesis unfolding Let_def by blast
qed

theorem favorite_genres_most_frequent_witness:
  "- (2 ^ 63) \<le> (2 :: int) \<and> (2 :: int) < 2 ^ 63 \<and>
   fk_book (db_file shelf_state) \<and>
   filter (\<lambda>r. r_user_id r = 2 \<and> 4 \<le> rating r) (reviews (db_file shelf_state)) \<noteq> [] \<and>
   favorite_genres (db_file shelf_state) 2 = [''Sci-Fi'', ''Classic''] \<and>
   (let joined = List.product
          (filter (\<lambda>r. r_user_id r = 2 \<and> 4 \<le> rating r) (reviews (db_file shelf_state)))
          (books (db_file shelf_state));
        cnt = (\<lambda>g. length (filter (\<lambda>(r, b). b_id b = r_book_id r \<and> genre b = g) joined));
        gs = favorite_genres (db_file shelf_state) 2;
        rows = genre_top (db_file shelf_state) gs (reviewed_book_ids (db_file shelf_state) 2)
    in gs \<noteq> [] \<and> distinct gs \<and> (\<forall>g \<in> set gs. 0 < cnt g) \<and>
       length gs = min 3 (card {g. 0 < cnt g}) \<and>
       sorted_wrt (\<lambda>g h. cnt h \<le> cnt g) gs \<and>
       (\<forall>g \<in> set gs. \<forall>h. h \<notin> set gs \<longrightarrow> cnt h \<le> cnt g) \<and>
       fst (get_recommendations 2 shelf_state) =
         (if rows = [] then Inl OperationalError else Inr rows))"
proof -
  have lo: "- (2 ^ 63) \<le> (2 :: int)" and hi: "(2 :: int) < 2 ^ 63" by simp_all
  have a: "fk_book (db_file shelf_state)" by (simp add: fk_book_def shelf_state_def shelf_def)
  have b: "filter (\<lambda>r. r_user_id r = 2 \<and> 4 \<le> rating r) (reviews (db_file shelf_state)) \<noteq> []"
    by (simp add: shelf_state_def shelf_def)
  have c: "favorite_genres (db_file shelf_state) 2 = [''Sci-Fi'', ''Classic'']"
    by (simp add: db_eval shelf_state_def shelf_def)
  from lo hi a b c favorite_genres_most_frequent [OF lo hi a b] show ?thesis by blast
qed

lemma by_avg_desc_title_asc_iff:
  "by_avg_desc_title_asc p q \<longleftrightarrow>
     (avg_ge (snd p) (snd q) \<and> (snd p = snd q \<longrightarrow> text_le (title (fst p)) (title (fst q))))"
proof
  assume l: "by_avg_desc_title_asc p q"
  show "avg_ge (snd p) (snd q) \<and> (snd p = snd q \<longrightarrow> text_le (title (fst p)) (title (fst q)))"
  proof (cases "avg_ge (snd q) (snd p)")
    case True
    with l show ?thesis unfolding by_avg_desc_title_asc_def by (simp add: avg_ge_refl)
  next
    case False
    then have "avg_ge (snd p) (snd q)" by (rule avg_ge_total)
    moreover have "snd p \<noteq> snd q" using False avg_ge_refl by metis
    ultimately show ?thesis by simp
  qed
next
  assume r: "avg_ge (snd p) (snd q) \<and> (snd p = snd q \<longrightarrow> text_le (title (fst p)) (title (fst q)))"
  show "by_avg_desc_title_asc p q"
  proof (cases "avg_ge (snd q) (snd p)")
    case True
    with r have "snd p = snd q" by (simp add: avg_ge_antisym)
    with r show ?thesis unfolding by_avg_desc_title_asc_def by simp
  next
    case False
    then show ?thesis unfolding by_avg_desc_title_asc_def by simp
  qed
qed

lemma genre_top_eq:
  "genre_top db genres reviewed =
     take 5 (order_by by_avg_desc_title_asc
       (map (\<lambda>b. (b, avg_rating (reviews db) (b_id b)))
          (filter (\<lambda>b. genre b \<in> set genres \<and> b_id b \<notin> set reviewed) (books db))))"
  by (cases "reviewed = []") (simp_all add: genre_top_def books_with_avg_def)

lemma genre_top_spec:
  fixes db genres reviewed
  defines "pool \<equiv> map (\<lambda>b. (b, avg_rating (reviews db) (b_id b)))
          (filter (\<lambda>b. genre b \<in> set genres \<and> b_id b \<notin> set reviewed) (books db))"
  shows "\<exists>rest.
     mset (genre_top db genres reviewed @ rest) = mset pool \<and>
     length (genre_top db genres reviewed) = min 5 (length pool) \<and>
     sorted_wrt (\<lambda>p q. avg_ge (snd p) (snd q) \<and>
                  (snd p = snd q \<longrightarrow> text_le (title (fst p)) (title (fst q))))
       (genre_top db genres reviewed) \<and>
     (\<forall>p \<in> set (genre_top db genres reviewed). \<forall>q \<in> set rest.
        avg_ge (snd p) (snd q) \<and> (snd p = snd q \<longrightarrow> text_le (title (fst p)) (title (fst q))))"
proof -
  have rel: "by_avg_desc_title_asc =
      (\<lambda>p q. avg_ge (snd p) (snd q) \<and> (snd p = snd q \<longrightarrow> text_le (title (fst p)) (title (fst q))))"
    by (simp add: fun_eq_iff by_avg_desc_title_asc_iff)
  have tot: "\<forall>a b. \<not> by_avg_desc_title_asc a b \<longrightarrow> by_avg_desc_title_asc b a"
    using by_avg_desc_title_asc_total by blast
  have tr: "\<forall>a b c. by_avg_desc_title_asc a b \<longrightarrow> by_avg_desc_title_asc b c \<longrightarrow> by_avg_desc_title_asc a c"
    using by_avg_desc_title_asc_trans by blast
  note t = top_rows [where prec = by_avg_desc_title_asc and n = 5 and pool = pool, OF tot tr]
  have g: "genre_top db genres reviewed = take 5 (order_by by_avg_desc_title_asc pool)"
    unfolding pool_def by (rule genre_top_eq)
  let ?rest = "drop 5 (order_by by_avg_desc_title_asc pool)"
  have "mset (genre_top db genres reviewed @ ?rest) = mset pool" using t g by simp
  moreover have "length (genre_top db genres reviewed) = min 5 (length pool)" using t g by simp
  moreover have "sorted_wrt (\<lambda>p q. avg_ge (snd p) (snd q) \<and>
                  (snd p = snd q \<longrightarrow> text_le (title (fst p)) (title (fst q))))
       (genre_top db genres reviewed)"
  proof -
    have "sorted_wrt by_avg_desc_title_asc (take 5 (order_by by_avg_desc_title_asc pool))"
      using t by blast
    then show ?thesis unfolding g unfolding rel .
  qed
  moreover have "\<forall>p \<in> set (genre_top db genres reviewed). \<forall>q \<in> set ?rest.
        avg_ge (snd p) (snd q) \<and> (snd p = snd q \<longrightarrow> text_le (title (fst p)) (title (fst q)))"
  proof -
    have "\<forall>p \<in> set (take 5 (order_by by_avg_desc_title_asc pool)). \<forall>q \<in> set ?rest.
        by_avg_desc_title_asc p q" using t by blast
    then show ?thesis unfolding g by_avg_desc_title_asc_iff .
  qed
  ultimately show ?thesis by blast
qed

lemma favorite_genres_liked:
  "favorite_genres db u \<noteq> [] \<Longrightarrow>
     filter (\<lambda>r. r_user_id r = u \<and> 4 \<le> rating r) (reviews db) \<noteq> []"
  using favorite_genres_Nil no_liked_genres by blast


lemma text_le_iff_lexord:
  "text_le a b \<longleftrightarrow> a = b \<or> (a, b) \<in> lexord {(c, d). (of_char c :: nat) < of_char d}"
proof (induction a b rule: text_le.induct)
  case (1 ys)
  show ?case by (cases ys) simp_all
next
  case (2 x xs)
  show ?case by simp
next
  case (3 x xs y ys)
  then show ?case by auto
qed

lemma set_reviewed_book_ids:
  "set (reviewed_book_ids db u) = set (map r_book_id (filter (\<lambda>r. r_user_id r = u) (reviews db)))"
  by (simp only: reviewed_book_ids_def set_order_by)

lemma ranks_iff:
  "(avg_ge (snd p) (snd q) \<and> (snd p = snd q \<longrightarrow> text_le (title (fst p)) (title (fst q)))) \<longleftrightarrow>
   ((snd q = None \<or> (\<exists>x y. snd p = Some x \<and> snd q = Some y \<and> y \<le> x)) \<and>
    (snd p = snd q \<longrightarrow>
       title (fst p) = title (fst q) \<or>
       (title (fst p), title (fst q)) \<in> lexord {(c, d). (of_char c :: nat) < of_char d}))"
  by (simp only: avg_ge_iff text_le_iff_lexord)

text \<open>
  Claim C2. For a user id that SQLite can bind, when some book has a genre among the
  favourite genres and has not been reviewed by the user: the user has a review of
  rating 4 or more; the favourite genres are top genres by the count of C4 (pairwise
  different, of positive count, 3 or all the genres of positive count, none left out with
  a greater count); \<^verbatim>\<open>get_recommendations\<close> returns rows that, together with the rows cut
  off by \<^verbatim>\<open>LIMIT 5\<close>, are exactly the candidates (books of a favourite genre whose id is
  not that of a book the user has reviewed), each with the mean of the ratings of all its
  reviews (\<^verbatim>\<open>NULL\<close> when it has none); there are 5 rows, or as many as there are candidates
  when these are fewer; a row never comes before a row of greater average, nor a row
  without average before a row with one; rows of equal average are in ascending order of
  title, byte by byte; and the same holds between the rows returned and the rows cut off.
\<close>

theorem affinity_ranking:
  assumes lo: "- (2 ^ 63) \<le> user_id" and hi: "user_id < 2 ^ 63"
    and cands:
      "filter (\<lambda>b. genre b \<in> set (favorite_genres (db_file s) user_id) \<and>
                   b_id b \<notin> set (map r_book_id
                                  (filter (\<lambda>r. r_user_id r = user_id) (reviews (db_file s)))))
         (books (db_file s)) \<noteq> []"
  shows "let db = db_file s;
             high = filter (\<lambda>r. r_user_id r = user_id \<and> 4 \<le> rating r) (reviews db);
             cnt = (\<lambda>g. length (filter (\<lambda>(r, b). b_id b = r_book_id r \<and> genre b = g)
                                    (List.product high (books db))));
             rated = set (map r_book_id (filter (\<lambda>r. r_user_id r = user_id) (reviews db)));
             mean = (\<lambda>b. let scores = map rating (filter (\<lambda>r. r_book_id r = b_id b) (reviews db))
                           in if scores = [] then None
                              else Some (of_int (sum_list scores) / of_int (int (length scores))));
             ranks = (\<lambda>p q.
                (snd q = None \<or> (\<exists>x y. snd p = Some x \<and> snd q = Some y \<and> y \<le> x)) \<and>
                (snd p = snd q \<longrightarrow>
                   title (fst p) = title (fst q) \<or>
                   (title (fst p), title (fst q)) \<in> lexord {(c, d). (of_char c :: nat) < of_char d}));
             gs = favorite_genres db user_id;
             pool = filter (\<lambda>b. genre b \<in> set gs \<and> b_id b \<notin> rated) (books db)
         in \<exists>rows rest.
              fst (get_recommendations user_id s) = Inr rows \<and>
              high \<noteq> [] \<and>
              distinct gs \<and> (\<forall>g \<in> set gs. 0 < cnt g) \<and>
              length gs = min 3 (card {g. 0 < cnt g}) \<and>
              (\<forall>g \<in> set gs. \<forall>h. h \<notin> set gs \<longrightarrow> cnt h \<le> cnt g) \<and>
              (\<forall>p \<in> set rows. fst p \<in> set pool \<and> snd p = mean (fst p)) \<and>
              mset (rows @ rest) = mset (map (\<lambda>b. (b, mean b)) pool) \<and>
              length rows = min 5 (length pool) \<and>
              sorted_wrt ranks rows \<and>
              (\<forall>p \<in> set rows. \<forall>q \<in> set rest. ranks p q)"
proof -
  let ?db = "db_file s"
  let ?fav = "favorite_genres ?db user_id"
  let ?rev = "reviewed_book_ids ?db user_id"
  let ?rated = "set (map r_book_id (filter (\<lambda>r. r_user_id r = user_id) (reviews ?db)))"
  let ?cands = "filter (\<lambda>b. genre b \<in> set ?fav \<and> b_id b \<notin> ?rated) (books ?db)"
  let ?pool = "map (\<lambda>b. (b, avg_rating (reviews ?db) (b_id b))) ?cands"
  let ?rows = "genre_top ?db ?fav ?rev"
  have rev: "set ?rev = ?rated" by (rule set_reviewed_book_ids)
  have fav: "?fav \<noteq> []"
  proof
    assume "?fav = []"
    then have "?cands = []" by simp
    with cands show False by simp
  qed
  obtain rest where r:
    "mset (?rows @ rest) = mset ?pool"
    "length ?rows = min 5 (length ?pool)"
    "sorted_wrt (\<lambda>p q. avg_ge (snd p) (snd q) \<and>
                  (snd p = snd q \<longrightarrow> text_le (title (fst p)) (title (fst q)))) ?rows"
    "\<forall>p \<in> set ?rows. \<forall>q \<in> set rest.
        avg_ge (snd p) (snd q) \<and> (snd p = snd q \<longrightarrow> text_le (title (fst p)) (title (fst q)))"
    using genre_top_spec [of ?db ?fav ?rev] unfolding rev by blast
  have len: "length ?rows = min 5 (length ?cands)" using r(2) by simp
  have "0 < length ?cands" using cands by simp
  with len have "0 < length ?rows" by simp
  then have ne: "?rows \<noteq> []" by auto
  have ret: "fst (get_recommendations user_id s) = Inr ?rows"
    using fav ne lo hi by (simp add: fst_get_recommendations)
  have sub: "set ?rows \<subseteq> set ?pool"
  proof -
    have "set_mset (mset (?rows @ rest)) = set_mset (mset ?pool)" using r(1) by simp
    then show ?thesis by auto
  qed
  have mem: "\<forall>p \<in> set ?rows. fst p \<in> set ?cands \<and> snd p = avg_rating (reviews ?db) (b_id (fst p))"
  proof
    fix p assume "p \<in> set ?rows"
    with sub have "p \<in> set ?pool" by blast
    then show "fst p \<in> set ?cands \<and> snd p = avg_rating (reviews ?db) (b_id (fst p))" by auto
  qed
  have liked: "filter (\<lambda>r. r_user_id r = user_id \<and> 4 \<le> rating r) (reviews ?db) \<noteq> []"
    using fav by (rule favorite_genres_liked)
  note c = favorite_genres_counts [of ?db user_id]
  have "\<exists>rows rest.
      fst (get_recommendations user_id s) = Inr rows \<and>
      (\<forall>p \<in> set rows. fst p \<in> set ?cands \<and> snd p = avg_rating (reviews ?db) (b_id (fst p))) \<and>
      mset (rows @ rest) = mset ?pool \<and>
      length rows = min 5 (length ?cands) \<and>
      sorted_wrt (\<lambda>p q. avg_ge (snd p) (snd q) \<and>
                  (snd p = snd q \<longrightarrow> text_le (title (fst p)) (title (fst q)))) rows \<and>
      (\<forall>p \<in> set rows. \<forall>q \<in> set rest.
        avg_ge (snd p) (snd q) \<and> (snd p = snd q \<longrightarrow> text_le (title (fst p)) (title (fst q))))"
    using ret mem r(1) len r(3) r(4) by blast
  then have "\<exists>rows rest.
      fst (get_recommendations user_id s) = Inr rows \<and>
      (\<forall>p \<in> set rows. fst p \<in> set ?cands \<and>
         snd p = (let scores = map rating (filter (\<lambda>r. r_book_id r = b_id (fst p)) (reviews ?db))
                  in if scores = [] then None
                     else Some (of_int (sum_list scores) / of_int (int (length scores))))) \<and>
      mset (rows @ rest) =
        mset (map (\<lambda>b. (b, let scores = map rating (filter (\<lambda>r. r_book_id r = b_id b) (reviews ?db))
                           in if scores = [] then None
                              else Some (of_int (sum_list scores) / of_int (int (length scores)))))
               ?cands) \<and>
      length rows = min 5 (length ?cands) \<and>
      sorted_wrt (\<lambda>p q.
                (snd q = None \<or> (\<exists>x y. snd p = Some x \<and> snd q = Some y \<and> y \<le> x)) \<and>
                (snd p = snd q \<longrightarrow>
                   title (fst p) = title (fst q) \<or>
                   (title (fst p), title (fst q)) \<in> lexord {(c, d). (of_char c :: nat) < of_char d}))
        rows \<and>
      (\<forall>p \<in> set rows. \<forall>q \<in> set rest.
                (snd q = None \<or> (\<exists>x y. snd p = Some x \<and> snd q = Some y \<and> y \<le> x)) \<and>
                (snd p = snd q \<longrightarrow>
                   title (fst p) = title (fst q) \<or>
                   (title (fst p), title (fst q)) \<in> lexord {(c, d). (of_char c :: nat) < of_char d}))"
    unfolding ranks_iff avg_rating_def .
  with liked c show ?thesis unfolding Let_def by blast
qed

theorem affinity_ranking_witness:
  "- (2 ^ 63) \<le> (1 :: int) \<and> (1 :: int) < 2 ^ 63 \<and>
   filter (\<lambda>b. genre b \<in> set (favorite_genres (db_file shelf_state) 1) \<and>
                b_id b \<notin> set (map r_book_id
                               (filter (\<lambda>r. r_user_id r = 1) (reviews (db_file shelf_state)))))
     (books (db_file shelf_state)) \<noteq> [] \<and>
   fst (get_recommendations 1 shelf_state) = Inr shelf_ann_rows \<and>
   (let db = db_file shelf_state;
        high = filter (\<lambda>r. r_user_id r = 1 \<and> 4 \<le> rating r) (reviews db);
        cnt = (\<lambda>g. length (filter (\<lambda>(r, b). b_id b = r_book_id r \<and> genre b = g)
                               (List.product high (books db))));
        rated = set (map r_book_id (filter (\<lambda>r. r_user_id r = 1) (reviews db)));
        mean = (\<lambda>b. let scores = map rating (filter (\<lambda>r. r_book_id r = b_id b) (reviews db))
                      in if scores = [] then None
                         else Some (of_int (sum_list scores) / of_int (int (length scores))));
        ranks = (\<lambda>p q.
           (snd q = None \<or> (\<exists>x y. snd p = Some x \<and> snd q = Some y \<and> y \<le> x)) \<and>
           (snd p = snd q \<longrightarrow>
              title (fst p) = title (fst q) \<or>
              (title (fst p), title (fst q)) \<in> lexord {(c, d). (of_char c :: nat) < of_char d}));
        gs = favorite_genres db 1;
        pool = filter (\<lambda>b. genre b \<in> set gs \<and> b_id b \<notin> rated) (books db)
    in \<exists>rows rest.
         fst (get_recommendations 1 shelf_state) = Inr rows \<and>
         high \<noteq> [] \<and>
         distinct gs \<and> (\<forall>g \<in> set gs. 0 < cnt g) \<and>
         length gs = min 3 (card {g. 0 < cnt g}) \<and>
         (\<forall>g \<in> set gs. \<forall>h. h \<notin> set gs \<longrightarrow> cnt h \<le> cnt g) \<and>
         (\<forall>p \<in> set rows. fst p \<in> set pool \<and> snd p = mean (fst p)) \<and>
         mset (rows @ rest) = mset (map (\<lambda>b. (b, mean b)) pool) \<and>
         length rows = min 5 (length pool) \<and>
         sorted_wrt ranks rows \<and>
         (\<forall>p \<in> set rows. \<forall>q \<in> set rest. ranks p q))"
proof -
  have lo: "- (2 ^ 63) \<le> (1 :: int)" and hi: "(1 :: int) < 2 ^ 63" by simp_all
  have c: "filter (\<lambda>b. genre b \<in> set (favorite_genres (db_file shelf_state) 1) \<and>
                b_id b \<notin> set (map r_book_id
                               (filter (\<lambda>r. r_user_id r = 1) (reviews (db_file shelf_state)))))
     (books (db_file shelf_state)) \<noteq> []"
    by (simp add: db_eval shelf_state_def shelf_def)
  from lo hi c shelf_ann affinity_ranking [OF lo hi c] show ?thesis by blast
qed

lemma exhausted_affinity_raises:
  assumes "- (2 ^ 63) \<le> user_id" and "user_id < 2 ^ 63"
    and "favorite_genres (db_file s) user_id \<noteq> []"
    and "filter (\<lambda>b. genre b \<in> set (favorite_genres (db_file s) user_id) \<and>
                 b_id b \<notin> set (reviewed_book_ids (db_file s) user_id))
       (books (db_file s)) = []"
  shows "fst (get_recommendations user_id s) = Inl OperationalError"
proof -
  have "genre_top (db_file s) (favorite_genres (db_file s) user_id)
          (reviewed_book_ids (db_file s) user_id) = []"
    using assms(4) by (simp add: genre_top_eq order_by_Nil)
  with assms(1-3) show ?thesis by (simp add: fst_get_recommendations)
qed

text \<open>
  Claim C1 on the code. In the seeded catalogue the reader has rated both Sci-Fi books
  (5 and 4), so the favourite genre is Sci-Fi and no candidate is left, while four books
  remain that the reader has not rated. The claim asks for a ranking of those four;
  \<^verbatim>\<open>get_recommendations\<close> raises \<^verbatim>\<open>OperationalError\<close>, as it does whenever the candidates
  are exhausted (\<open>exhausted_affinity_raises\<close>).
\<close>

theorem exhausted_affinity_fallback_raises:
  "favorite_genres two_scifi_rated 1 = [''Sci-Fi''] \<and>
   reviewed_book_ids two_scifi_rated 1 = [2, 4] \<and>
   filter (\<lambda>b. genre b = ''Sci-Fi'') (books two_scifi_rated) =
     filter (\<lambda>b. b_id b \<in> {2, 4}) (books two_scifi_rated) \<and>
   length (filter (\<lambda>b. b_id b \<notin> {2, 4}) (books two_scifi_rated)) = 4 \<and>
   fst (get_recommendations 1 \<lparr>db_file = two_scifi_rated, g_database = True\<rparr>) =
     Inl OperationalError"
  by (simp add: db_eval two_scifi_rated_def init_db_def empty_db_def sample_books_def
      insert_book_def next_id_def)

text \<open>
  Genres of equal count: the reader of \<open>four_genres_rated\<close> gets the three genres that
  come last in the order of the bytes, and the two books of these genres not yet rated.
\<close>

lemma four_genres_rated_ties:
  "favorite_genres four_genres_rated 1 = [''Sci-Fi'', ''Non-Fiction'', ''Mystery''] \<and>
   map (\<lambda>p. (b_id (fst p), snd p))
     (genre_top four_genres_rated (favorite_genres four_genres_rated 1)
        (reviewed_book_ids four_genres_rated 1)) = [(4, None), (5, None)]"
  by (simp add: db_eval four_genres_rated_def init_db_def empty_db_def sample_books_def
      insert_book_def next_id_def)

lemma no_reviews_global_top:
  assumes "- (2 ^ 63) \<le> u" and "u < 2 ^ 63"
    and "filter (\<lambda>r. r_user_id r = u) (reviews (db_file s)) = []"
  shows "get_recommendations u s = (Inr (global_top (db_file s)), get_db s)"
proof -
  have "filter (\<lambda>r. r_user_id r = u \<and> 4 \<le> rating r) (reviews (db_file s)) = []"
    using assms(3) by (simp add: filter_empty_conv)
  then have "fst (get_recommendations u s) = Inr (global_top (db_file s))"
    using assms(1,2) by (simp add: fst_get_recommendations favorite_genres_Nil no_liked_genres)
  then show ?thesis using snd_get_recommendations [of u s] by (simp add: prod_eq_iff)
qed

text \<open>
  Claim C5, as amended. For a \<open>user_id\<close> that SQLite can bind and that is the id of no
  user, when every review belongs to a user of the \<^verbatim>\<open>users\<close> table (the foreign key of
  line 77): \<^verbatim>\<open>get_recommendations\<close> raises no exception and does exactly what it does for
  any user \<open>other\<close> that has no review; it returns the global ranking, that is 5 rows, or
  as many as there are books when these are fewer, which with the rows cut off are all
  the books, each with the mean of its ratings, in descending order of average, the
  books without ratings last.
\<close>

theorem unknown_user_global_ranking:
  assumes lo: "- (2 ^ 63) \<le> user_id" and hi: "user_id < 2 ^ 63"
    and lo': "- (2 ^ 63) \<le> other" and hi': "other < 2 ^ 63"
    and fk: "fk_user (db_file s)"
    and unknown: "user_id \<notin> set (map u_id (users (db_file s)))"
    and no_ratings: "filter (\<lambda>r. r_user_id r = other) (reviews (db_file s)) = []"
  shows "get_recommendations user_id s = get_recommendations other s \<and>
    (\<exists>rows rest.
      fst (get_recommendations user_id s) = Inr rows \<and>
      length rows = min 5 (length (books (db_file s))) \<and>
      mset (rows @ rest) =
        mset (map (\<lambda>b. (b, let scores = map rating
                                   (filter (\<lambda>r. r_book_id r = b_id b) (reviews (db_file s)))
                           in if scores = [] then None
                              else Some (of_int (sum_list scores) / of_int (int (length scores)))))
               (books (db_file s))) \<and>
      sorted_wrt (\<lambda>p q. snd q = None \<or> (\<exists>x y. snd p = Some x \<and> snd q = Some y \<and> y \<le> x)) rows \<and>
      (\<forall>p \<in> set rows. \<forall>q \<in> set rest.
         snd q = None \<or> (\<exists>x y. snd p = Some x \<and> snd q = Some y \<and> y \<le> x)))"
proof -
  have none: "filter (\<lambda>r. r_user_id r = user_id) (reviews (db_file s)) = []"
    using fk unknown unfolding fk_user_def by (auto simp: filter_empty_conv)
  then have a: "get_recommendations user_id s = (Inr (global_top (db_file s)), get_db s)"
    using lo hi no_reviews_global_top by blast
  have b: "get_recommendations other s = (Inr (global_top (db_file s)), get_db s)"
    using lo' hi' no_ratings by (rule no_reviews_global_top)
  obtain rest where r:
    "length (global_top (db_file s)) = min 5 (length (books (db_file s)))"
    "mset (global_top (db_file s) @ rest) =
       mset (map (\<lambda>b. (b, avg_rating (reviews (db_file s)) (b_id b))) (books (db_file s)))"
    "sorted_wrt (\<lambda>p q. avg_ge (snd p) (snd q)) (global_top (db_file s))"
    "\<forall>p \<in> set (global_top (db_file s)). \<forall>q \<in> set rest. avg_ge (snd p) (snd q)"
    using global_top_spec [of "db_file s"] by blast
  have "fst (get_recommendations user_id s) = Inr (global_top (db_file s))" using a by simp
  with r have "\<exists>rows rest.
      fst (get_recommendations user_id s) = Inr rows \<and>
      length rows = min 5 (length (books (db_file s))) \<and>
      mset (rows @ rest) =
        mset (map (\<lambda>b. (b, avg_rating (reviews (db_file s)) (b_id b))) (books (db_file s))) \<and>
      sorted_wrt (\<lambda>p q. avg_ge (snd p) (snd q)) rows \<and>
      (\<forall>p \<in> set rows. \<forall>q \<in> set rest. avg_ge (snd p) (snd q))"
    by blast
  then have "\<exists>rows rest.
      fst (get_recommendations user_id s) = Inr rows \<and>
      length rows = min 5 (length (books (db_file s))) \<and>
      mset (rows @ rest) =
        mset (map (\<lambda>b. (b, let scores = map rating
                                   (filter (\<lambda>r. r_book_id r = b_id b) (reviews (db_file s)))
                           in if scores = [] then None
                              else Some (of_int (sum_list scores) / of_int (int (length scores)))))
               (books (db_file s))) \<and>
      sorted_wrt (\<lambda>p q. snd q = None \<or> (\<exists>x y. snd p = Some x \<and> snd q = Some y \<and> y \<le> x)) rows \<and>
      (\<forall>p \<in> set rows. \<forall>q \<in> set rest.
         snd q = None \<or> (\<exists>x y. snd p = Some x \<and> snd q = Some y \<and> y \<le> x))"
    unfolding avg_ge_iff avg_rating_def .
  with a b show ?thesis by simp
qed

theorem unknown_user_global_ranking_witness:
  "- (2 ^ 63) \<le> (9 :: int) \<and> (9 :: int) < 2 ^ 63 \<and>
   - (2 ^ 63) \<le> (4 :: int) \<and> (4 :: int) < 2 ^ 63 \<and>
   fk_user (db_file shelf_state) \<and> 9 \<notin> set (map u_id (users (db_file shelf_state))) \<and>
   filter (\<lambda>r. r_user_id r = 4) (reviews (db_file shelf_state)) = [] \<and>
   get_recommendations 9 shelf_state = get_recommendations 4 shelf_state \<and>
   (\<exists>rows rest.
      fst (get_recommendations 9 shelf_state) = Inr rows \<and>
      length rows = min 5 (length (books (db_file shelf_state))) \<and>
      mset (rows @ rest) =
        mset (map (\<lambda>b. (b, let scores = map rating
                                   (filter (\<lambda>r. r_book_id r = b_id b) (reviews (db_file shelf_state)))
                           in if scores = [] then None
                              else Some (of_int (sum_list scores) / of_int (int (length scores)))))
               (books (db_file shelf_state))) \<and>
      sorted_wrt (\<lambda>p q. snd q = None \<or> (\<exists>x y. snd p = Some x \<and> snd q = Some y \<and> y \<le> x)) rows \<and>
      (\<forall>p \<in> set rows. \<forall>q \<in> set rest.
         snd q = None \<or> (\<exists>x y. snd p = Some x \<and> snd q = Some y \<and> y \<le> x)))"
proof -
  have lo: "- (2 ^ 63) \<le> (9 :: int)" and hi: "(9 :: int) < 2 ^ 63"
    and lo': "- (2 ^ 63) \<le> (4 :: int)" and hi': "(4 :: int) < 2 ^ 63" by simp_all
  have a: "fk_user (db_file shelf_state)" by (simp add: fk_user_def shelf_state_def shelf_def)
  have b: "9 \<notin> set (map u_id (users (db_file shelf_state)))"
    by (simp add: shelf_state_def shelf_def)
  have c: "filter (\<lambda>r. r_user_id r = 4) (reviews (db_file shelf_state)) = []"
    by (simp add: shelf_state_def shelf_def)
  from lo hi lo' hi' a b c unknown_user_global_ranking [OF lo hi lo' hi' a b c]
  show ?thesis by blast
qed

text \<open>
  Claim C5, as stated, fails: \<open>2 ^ 63\<close> is the id of no user of \<open>shelf\<close>, and for it
  \<^verbatim>\<open>get_recommendations\<close> raises \<^verbatim>\<open>OverflowError\<close>, while Dee (user 4), who has no
  review, gets a ranking.
\<close>

theorem unknown_user_overflow:
  "2 ^ 63 \<notin> set (map u_id (users (db_file shelf_state))) \<and>
   fk_user (db_file shelf_state) \<and>
   filter (\<lambda>r. r_user_id r = 4) (reviews (db_file shelf_state)) = [] \<and>
   fst (get_recommendations (2 ^ 63) shelf_state) = Inl OverflowError \<and>
   (\<exists>rows. fst (get_recommendations 4 shelf_state) = Inr rows)"
  by (simp add: db_eval fk_user_def shelf_state_def shelf_def)

section \<open>Properties of the handlers that write\<close>

lemma fold_max_ge: "a \<le> fold max ids (a :: int)"
proof (induction ids arbitrary: a)
  case Nil
  show ?case by simp
next
  case (Cons x xs)
  have "max x a \<le> fold max xs (max x a)" by (rule Cons.IH)
  then show ?case by simp
qed

lemma fold_max_mem: "x \<in> set ids \<Longrightarrow> x \<le> fold max ids (a :: int)"
proof (induction ids arbitrary: a)
  case Nil
  then show ?case by simp
next
  case (Cons y ys)
  show ?case
  proof (cases "x = y")
    case True
    have "max y a \<le> fold max ys (max y a)" by (rule fold_max_ge)
    with True show ?thesis by simp
  next
    case False
    with Cons.prems have "x \<in> set ys" by simp
    then have "x \<le> fold max ys (max y a)" by (rule Cons.IH)
    then show ?thesis by simp
  qed
qed

lemma next_id_fresh: "next_id ids \<notin> set ids"
proof
  assume "next_id ids \<in> set ids"
  then have "next_id ids \<le> fold max ids 0" by (rule fold_max_mem)
  then show False by (simp add: next_id_def)
qed

lemma seeded_ids: "map b_id (books (init_db empty_db)) = [1, 2, 3, 4, 5, 6]"
  by (simp add: init_db_def empty_db_def sample_books_def insert_book_def next_id_def)

lemma seeded_users: "users (init_db empty_db) = []"
  by (simp add: init_db_def empty_db_def sample_books_def insert_book_def)

lemma seeded_reviews: "reviews (init_db empty_db) = []"
  by (simp add: init_db_def empty_db_def sample_books_def insert_book_def)

lemma update_review_tables:
  "users (update_review db score txt i) = users db"
  "books (update_review db score txt i) = books db"
  "map r_id (reviews (update_review db score txt i)) = map r_id (reviews db)"
  "map (\<lambda>r. (r_user_id r, r_book_id r)) (reviews (update_review db score txt i)) =
     map (\<lambda>r. (r_user_id r, r_book_id r)) (reviews db)"
  "map r_user_id (reviews (update_review db score txt i)) = map r_user_id (reviews db)"
  "map r_book_id (reviews (update_review db score txt i)) = map r_book_id (reviews db)"
  by (simp_all add: update_review_def comp_def)

lemma insert_review_tables:
  assumes "insert_review db uid bid score txt = Inr db'"
  shows "users db' = users db" "books db' = books db"
    "reviews db' = reviews db @
       [\<lparr>r_id = next_id (map r_id (reviews db)), r_user_id = uid, r_book_id = bid,
         rating = score, review_text = txt\<rparr>]"
    "(uid, bid) \<notin> set (map (\<lambda>r. (r_user_id r, r_book_id r)) (reviews db))"
  using assms by (auto simp: insert_review_def split: if_splits)

lemma insert_user_tables:
  assumes "insert_user db name h = Inr db'"
  shows "books db' = books db" "reviews db' = reviews db"
    "users db' = users db @ [\<lparr>u_id = next_id (map u_id (users db)), username = name, password_hash = h\<rparr>]"
  using assms by (auto simp: insert_user_def split: if_splits)

lemma book_detail_cases:
  "db_file (snd (book_detail py_int req book_id s)) = db_file s \<or>
   (\<exists>old score. user_review (db_file s) req book_id = Some old \<and>
      db_file (snd (book_detail py_int req book_id s)) =
        update_review (db_file s) score (form_review_text req) (r_id old)) \<or>
   (\<exists>u score. current_user (db_file s) req = Some u \<and>
      find (\<lambda>b. b_id b = book_id) (books (db_file s)) \<noteq> None \<and>
      insert_review (db_file s) (u_id u) book_id score (form_review_text req) =
        Inr (db_file (snd (book_detail py_int req book_id s))))"
  by (auto simp: book_detail_def Let_def get_db_file split: option.split sum.split)

lemma register_cases:
  "db_file (snd (register gen_hash req s)) = db_file s \<or>
   (\<exists>name h. insert_user (db_file s) name h = Inr (db_file (snd (register gen_hash req s))))"
  by (auto simp: register_def Let_def get_db_file split: option.split sum.split)

lemma fk_user_alt: "fk_user db \<longleftrightarrow> set (map r_user_id (reviews db)) \<subseteq> set (map u_id (users db))"
  by (auto simp: fk_user_def)

lemma fk_book_alt: "fk_book db \<longleftrightarrow> set (map r_book_id (reviews db)) \<subseteq> set (map b_id (books db))"
  by (auto simp: fk_book_def)

lemmas constraints_defs = constraints_def pk_users_def pk_books_def pk_reviews_def
  unique_user_book_def fk_user_alt fk_book_alt

lemma find_mem: "find P xs = Some x \<Longrightarrow> x \<in> set xs \<and> P x"
  by (induction xs) (auto split: if_splits)

lemma constraints_update:
  "constraints db \<Longrightarrow> constraints (update_review db score txt i)"
  by (simp only: constraints_defs update_review_tables)

lemma constraints_insert_review:
  assumes c: "constraints db"
    and ins: "insert_review db uid bid score txt = Inr db'"
    and u: "uid \<in> set (map u_id (users db))"
    and b: "bid \<in> set (map b_id (books db))"
  shows "constraints db'"
proof -
  note t = insert_review_tables [OF ins]
  have fresh: "next_id (map r_id (reviews db)) \<notin> set (map r_id (reviews db))"
    by (rule next_id_fresh)
  have "pk_users db'" "pk_books db'" using c t by (simp_all add: constraints_defs)
  moreover have "pk_reviews db'" using c t(3) fresh by (simp add: constraints_defs)
  moreover have "unique_user_book db'" using c t(3) t(4) by (simp add: constraints_defs)
  moreover have "fk_user db'" using c t u by (simp add: constraints_defs)
  moreover have "fk_book db'" using c t b by (simp add: constraints_defs)
  ultimately show ?thesis by (simp add: constraints_def)
qed

lemma constraints_insert_user:
  assumes c: "constraints db" and ins: "insert_user db name h = Inr db'"
  shows "constraints db'"
proof -
  note t = insert_user_tables [OF ins]
  have fresh: "next_id (map u_id (users db)) \<notin> set (map u_id (users db))"
    by (rule next_id_fresh)
  have "pk_users db'" using c t(3) fresh by (simp add: constraints_defs)
  moreover have "pk_books db'" "pk_reviews db'" "unique_user_book db'" "fk_book db'"
    using c t by (simp_all add: constraints_defs)
  moreover have "fk_user db'" using c t by (auto simp: constraints_defs)
  ultimately show ?thesis by (simp add: constraints_def)
qed

lemma constraints_init: "constraints (init_db empty_db)"
  by (simp add: constraints_defs seeded_ids seeded_users seeded_reviews)

lemma current_user_mem:
  "current_user db req = Some u \<Longrightarrow> u_id u \<in> set (map u_id (users db))"
  by (auto simp: current_user_def load_user_def split: option.splits dest: find_mem)

lemma find_book_mem:
  "find (\<lambda>b. b_id b = book_id) (books db) \<noteq> None \<Longrightarrow> book_id \<in> set (map b_id (books db))"
  by (auto dest: find_mem)

lemma book_detail_constraints:
  assumes c: "constraints (db_file s)"
  shows "constraints (db_file (snd (book_detail py_int req book_id s)))"
  using book_detail_cases [of py_int req book_id s]
proof (elim disjE exE conjE)
  assume "db_file (snd (book_detail py_int req book_id s)) = db_file s"
  with c show ?thesis by simp
next
  fix old score
  assume "db_file (snd (book_detail py_int req book_id s)) =
        update_review (db_file s) score (form_review_text req) (r_id old)"
  with c show ?thesis by (simp add: constraints_update)
next
  fix u score
  assume u: "current_user (db_file s) req = Some u"
    and b: "find (\<lambda>b. b_id b = book_id) (books (db_file s)) \<noteq> None"
    and ins: "insert_review (db_file s) (u_id u) book_id score (form_review_text req) =
        Inr (db_file (snd (book_detail py_int req book_id s)))"
  show ?thesis
    using c ins current_user_mem [OF u] find_book_mem [OF b]
    by (rule constraints_insert_review)
qed

lemma book_detail_books:
  "books (db_file (snd (book_detail py_int req book_id s))) = books (db_file s)"
  using book_detail_cases [of py_int req book_id s]
  by (auto simp: update_review_tables dest: insert_review_tables(2))

lemma register_constraints:
  assumes c: "constraints (db_file s)"
  shows "constraints (db_file (snd (register gen_hash req s)))"
  using register_cases [of gen_hash req s] c constraints_insert_user by metis

lemma register_books:
  "books (db_file (snd (register gen_hash req s))) = books (db_file s)"
  using register_cases [of gen_hash req s] by (auto dest: insert_user_tables(1))

lemma reachable_constraints:
  "reachable db \<Longrightarrow> constraints db \<and> books db = books (init_db empty_db)"
proof (induction rule: reachable.induct)
  case start
  show ?case by (simp add: constraints_init)
next
  case (review s py_int req book_id)
  then show ?case by (simp add: book_detail_constraints book_detail_books)
next
  case (signup s gen_hash req)
  then show ?case by (simp add: register_constraints register_books)
next
  case (recommend s user_id)
  then show ?case by (simp add: snd_get_recommendations get_db_file)
qed

lemma update_only_old:
  assumes pk: "pk_reviews db" and mem: "old \<in> set (reviews db)"
  shows "reviews (update_review db score txt (r_id old)) =
     map (\<lambda>r. if r = old then r\<lparr>rating := score, review_text := txt\<rparr> else r) (reviews db)"
proof -
  have inj: "inj_on r_id (set (reviews db))"
    using pk by (simp add: pk_reviews_def distinct_map)
  have "map (\<lambda>r. if r_id r = r_id old then r\<lparr>rating := score, review_text := txt\<rparr> else r) (reviews db) =
        map (\<lambda>r. if r = old then r\<lparr>rating := score, review_text := txt\<rparr> else r) (reviews db)"
  proof (rule map_cong [OF refl])
    fix r assume "r \<in> set (reviews db)"
    with inj mem have "r_id r = r_id old \<longleftrightarrow> r = old" by (auto dest: inj_onD)
    then show "(if r_id r = r_id old then r\<lparr>rating := score, review_text := txt\<rparr> else r) =
               (if r = old then r\<lparr>rating := score, review_text := txt\<rparr> else r)" by simp
  qed
  then show ?thesis by (simp add: update_review_def)
qed

lemma second_submission_updates:
  assumes reach: "reachable (db_file s)"
    and post: "req_method req = POST"
    and old: "user_review (db_file s) req book_id = Some old"
    and score: "form_get_int py_int (form_rating req) = Some score" "1 \<le> score" "score \<le> 5"
  shows "fst (book_detail py_int req book_id s) =
           Inr (Redirect [''Your review has been updated!''] (Book_detail book_id)) \<and>
         db_file (snd (book_detail py_int req book_id s)) =
           update_review (db_file s) score (form_review_text req) (r_id old) \<and>
         old \<in> set (reviews (db_file s))"
proof -
  let ?db = "db_file s"
  from reach have c: "constraints ?db" and bk: "books ?db = books (init_db empty_db)"
    using reachable_constraints by blast+
  from old obtain u where u: "current_user ?db req = Some u"
    and f: "find (\<lambda>r. r_user_id r = u_id u \<and> r_book_id r = book_id) (reviews ?db) = Some old"
    by (auto simp: user_review_def split: option.splits)
  from find_mem [OF f] have mem: "old \<in> set (reviews ?db)" and ob: "r_book_id old = book_id"
    by simp_all
  from c mem ob have "book_id \<in> set (map b_id (books ?db))"
    by (auto simp: constraints_def fk_book_def)
  then have ids: "book_id \<in> set [1, 2, 3, 4, 5, 6]" by (simp only: bk seeded_ids)
  then have small: "\<not> 2 ^ 63 \<le> book_id" by auto
  from \<open>book_id \<in> set (map b_id (books ?db))\<close>
  obtain book where book: "find (\<lambda>b. b_id b = book_id) (books ?db) = Some book"
    by (cases "find (\<lambda>b. b_id b = book_id) (books ?db)") (auto simp: find_None_iff)
  show ?thesis
    using small book post u old score mem
    by (simp add: book_detail_def Let_def get_db_file)
qed

text \<open>
  Claim C9. In every database the program can reach, no two reviews have the same user
  and book, and \<^verbatim>\<open>book_detail\<close> keeps it so. When a logged-in user who already has a
  review \<open>old\<close> of the book posts a rating from 1 to 5, the handler answers that the
  review has been updated, and the reviews afterwards are the reviews before with the
  rating and the text of \<open>old\<close> replaced: no row is added.
\<close>

theorem one_review_per_user_and_book:
  assumes reach: "reachable (db_file s)"
  shows "unique_user_book (db_file s) \<and>
         unique_user_book (db_file (snd (book_detail py_int req book_id s))) \<and>
         (req_method req = POST \<and> user_review (db_file s) req book_id = Some old \<and>
          form_get_int py_int (form_rating req) = Some score \<and> 1 \<le> score \<and> score \<le> 5 \<longrightarrow>
            fst (book_detail py_int req book_id s) =
              Inr (Redirect [''Your review has been updated!''] (Book_detail book_id)) \<and>
            reviews (db_file (snd (book_detail py_int req book_id s))) =
              map (\<lambda>r. if r = old
                        then r\<lparr>rating := score, review_text := form_review_text req\<rparr> else r)
                (reviews (db_file s)))"
proof -
  from reach have c: "constraints (db_file s)" using reachable_constraints by blast
  then have u1: "unique_user_book (db_file s)" by (simp add: constraints_def)
  have "constraints (db_file (snd (book_detail py_int req book_id s)))"
    using c by (rule book_detail_constraints)
  then have u2: "unique_user_book (db_file (snd (book_detail py_int req book_id s)))"
    by (simp add: constraints_def)
  have upd: "fst (book_detail py_int req book_id s) =
              Inr (Redirect [''Your review has been updated!''] (Book_detail book_id)) \<and>
            reviews (db_file (snd (book_detail py_int req book_id s))) =
              map (\<lambda>r. if r = old
                        then r\<lparr>rating := score, review_text := form_review_text req\<rparr> else r)
                (reviews (db_file s))"
    if h: "req_method req = POST" "user_review (db_file s) req book_id = Some old"
      "form_get_int py_int (form_rating req) = Some score" "1 \<le> score" "score \<le> 5"
  proof -
    note r = second_submission_updates [OF reach h]
    from c have pk: "pk_reviews (db_file s)" by (simp add: constraints_def)
    from r have mem: "old \<in> set (reviews (db_file s))" by blast
    from r update_only_old [OF pk mem] show ?thesis by simp
  qed
  from u1 u2 upd show ?thesis by blast
qed

text \<open>
  Claim C10. A review is posted (the book exists, the user is logged in, the method is
  \<^verbatim>\<open>POST\<close>) and the \<^verbatim>\<open>rating\<close> field is absent or \<^verbatim>\<open>int\<close> does not parse it:
  the parsed rating is \<^verbatim>\<open>None\<close> and \<^verbatim>\<open>book_detail\<close> raises \<^verbatim>\<open>TypeError\<close>
  instead of answering that the rating must be between 1 and 5; nothing is written to
  the tables.
\<close>

theorem missing_rating_raises_type_error:
  assumes small: "book_id < 2 ^ 63"
    and book: "find (\<lambda>b. b_id b = book_id) (books (db_file s)) \<noteq> None"
    and post: "req_method req = POST"
    and auth: "current_user (db_file s) req \<noteq> None"
    and bad: "form_rating req = None \<or> (\<exists>v. form_rating req = Some v \<and> py_int v = None)"
  shows "form_get_int py_int (form_rating req) = None \<and>
         book_detail py_int req book_id s = (Inl TypeError, get_db s)"
proof -
  from bad have none: "form_get_int py_int (form_rating req) = None"
    by (auto simp: form_get_int_def)
  from book obtain b where b: "find (\<lambda>b. b_id b = book_id) (books (db_file s)) = Some b" by auto
  from auth obtain u where u: "current_user (db_file s) req = Some u" by auto
  from small have s: "\<not> 2 ^ 63 \<le> book_id" by simp
  show ?thesis using none b u s post by (simp add: book_detail_def Let_def get_db_file)
qed

lemma find_book_id:
  "book_id \<in> set (map b_id bs) \<Longrightarrow> find (\<lambda>b. b_id b = book_id) bs \<noteq> None"
  by (auto simp: find_None_iff)

lemma two_scifi_rated_tables:
  "books two_scifi_rated = books (init_db empty_db)"
  "users two_scifi_rated = [\<lparr>u_id = 1, username = ''reader'', password_hash = ''h''\<rparr>]"
  "reviews two_scifi_rated =
     [\<lparr>r_id = 1, r_user_id = 1, r_book_id = 2, rating = 5, review_text = None\<rparr>,
      \<lparr>r_id = 2, r_user_id = 1, r_book_id = 4, rating = 4, review_text = None\<rparr>]"
  by (simp_all add: two_scifi_rated_def)

lemma two_scifi_rated_reachable: "reachable two_scifi_rated"
proof -
  let ?s0 = "\<lparr>db_file = init_db empty_db, g_database = False\<rparr>"
  let ?s1 = "snd (register (\<lambda>p. ''h'') signup_request ?s0)"
  let ?s2 = "snd (book_detail digit_int (post_rating (Some ''5'') None) 2 ?s1)"
  let ?s3 = "snd (book_detail digit_int (post_rating (Some ''4'') None) 4 ?s2)"
  have "reachable (db_file ?s0)" by (simp add: reachable.start)
  then have "reachable (db_file ?s1)" by (rule reachable.signup)
  then have "reachable (db_file ?s2)" by (rule reachable.review)
  then have r3: "reachable (db_file ?s3)" by (rule reachable.review)
  have "db_file ?s3 = two_scifi_rated"
    by (simp add: register_def book_detail_def signup_request_def post_rating_def
        current_user_def load_user_def user_review_def form_get_int_def digit_int_def
        insert_user_def insert_review_def next_id_def get_db_def two_scifi_rated_def Let_def
        init_db_def empty_db_def sample_books_def insert_book_def)
  with r3 show ?thesis by simp
qed


theorem one_review_per_user_and_book_witness:
  "reachable (db_file \<lparr>db_file = two_scifi_rated, g_database = False\<rparr>) \<and>
   req_method (post_rating (Some ''3'') (Some ''again'')) = POST \<and>
   user_review (db_file \<lparr>db_file = two_scifi_rated, g_database = False\<rparr>)
       (post_rating (Some ''3'') (Some ''again'')) 2 =
     Some \<lparr>r_id = 1, r_user_id = 1, r_book_id = 2, rating = 5, review_text = None\<rparr> \<and>
   form_get_int digit_int (form_rating (post_rating (Some ''3'') (Some ''again''))) = Some 3 \<and>
   unique_user_book (db_file \<lparr>db_file = two_scifi_rated, g_database = False\<rparr>) \<and>
   unique_user_book
     (db_file (snd (book_detail digit_int (post_rating (Some ''3'') (Some ''again'')) 2
                      \<lparr>db_file = two_scifi_rated, g_database = False\<rparr>))) \<and>
   fst (book_detail digit_int (post_rating (Some ''3'') (Some ''again'')) 2
          \<lparr>db_file = two_scifi_rated, g_database = False\<rparr>) =
     Inr (Redirect [''Your review has been updated!''] (Book_detail 2)) \<and>
   reviews (db_file (snd (book_detail digit_int (post_rating (Some ''3'') (Some ''again'')) 2
                      \<lparr>db_file = two_scifi_rated, g_database = False\<rparr>))) =
     [\<lparr>r_id = 1, r_user_id = 1, r_book_id = 2, rating = 3, review_text = Some ''again''\<rparr>,
      \<lparr>r_id = 2, r_user_id = 1, r_book_id = 4, rating = 4, review_text = None\<rparr>]"
proof -
  let ?s = "\<lparr>db_file = two_scifi_rated, g_database = False\<rparr>"
  let ?rq = "post_rating (Some ''3'') (Some ''again'')"
  let ?old = "\<lparr>r_id = 1, r_user_id = 1, r_book_id = 2, rating = 5, review_text = None\<rparr>"
  have reach: "reachable (db_file ?s)" by (simp add: two_scifi_rated_reachable)
  have post: "req_method ?rq = POST" by (simp add: post_rating_def)
  have old: "user_review (db_file ?s) ?rq 2 = Some ?old"
    by (simp add: user_review_def current_user_def load_user_def post_rating_def
        two_scifi_rated_tables)
  have score: "form_get_int digit_int (form_rating ?rq) = Some 3"
    by (simp add: form_get_int_def digit_int_def post_rating_def)
  have ftext: "form_review_text ?rq = Some ''again''" by (simp add: post_rating_def)
  have rs: "reviews (db_file ?s) = [?old,
      \<lparr>r_id = 2, r_user_id = 1, r_book_id = 4, rating = 4, review_text = None\<rparr>]"
    by (simp add: two_scifi_rated_tables)
  note t = one_review_per_user_and_book [OF reach, of digit_int ?rq 2 ?old 3]
  from t post old score have
    "fst (book_detail digit_int ?rq 2 ?s) =
       Inr (Redirect [''Your review has been updated!''] (Book_detail 2))"
    "reviews (db_file (snd (book_detail digit_int ?rq 2 ?s))) =
       map (\<lambda>r. if r = ?old then r\<lparr>rating := 3, review_text := form_review_text ?rq\<rparr> else r)
         (reviews (db_file ?s))"
    by simp_all
  then have
    "fst (book_detail digit_int ?rq 2 ?s) =
       Inr (Redirect [''Your review has been updated!''] (Book_detail 2))"
    "reviews (db_file (snd (book_detail digit_int ?rq 2 ?s))) =
       [\<lparr>r_id = 1, r_user_id = 1, r_book_id = 2, rating = 3, review_text = Some ''again''\<rparr>,
        \<lparr>r_id = 2, r_user_id = 1, r_book_id = 4, rating = 4, review_text = None\<rparr>]"
    by (simp_all only: rs ftext) simp_all
  with reach post old score t show ?thesis by blast
qed

theorem missing_rating_raises_type_error_witness:
  "(2 :: int) < 2 ^ 63 \<and>
   find (\<lambda>b. b_id b = 2) (books (db_file \<lparr>db_file = two_scifi_rated, g_database = False\<rparr>)) \<noteq> None \<and>
   req_method (post_rating (Some ''five'') None) = POST \<and>
   current_user (db_file \<lparr>db_file = two_scifi_rated, g_database = False\<rparr>)
     (post_rating (Some ''five'') None) \<noteq> None \<and>
   form_rating (post_rating (Some ''five'') None) = Some ''five'' \<and>
   digit_int ''five'' = None \<and>
   form_get_int digit_int (form_rating (post_rating (Some ''five'') None)) = None \<and>
   book_detail digit_int (post_rating (Some ''five'') None) 2
       \<lparr>db_file = two_scifi_rated, g_database = False\<rparr> =
     (Inl TypeError, get_db \<lparr>db_file = two_scifi_rated, g_database = False\<rparr>)"
proof -
  let ?s = "\<lparr>db_file = two_scifi_rated, g_database = False\<rparr>"
  let ?rq = "post_rating (Some ''five'') None"
  have small: "(2 :: int) < 2 ^ 63" by simp
  have book: "find (\<lambda>b. b_id b = 2) (books (db_file ?s)) \<noteq> None"
    by (rule find_book_id) (simp add: two_scifi_rated_tables seeded_ids)
  have post: "req_method ?rq = POST" by (simp add: post_rating_def)
  have auth: "current_user (db_file ?s) ?rq \<noteq> None"
    by (simp add: current_user_def load_user_def post_rating_def two_scifi_rated_tables)
  have f: "form_rating ?rq = Some ''five''" by (simp add: post_rating_def)
  have d: "digit_int ''five'' = None" by (simp add: digit_int_def)
  have bad: "form_rating ?rq = None \<or> (\<exists>v. form_rating ?rq = Some v \<and> digit_int v = None)"
    using f d by simp
  from small book post auth f d
    missing_rating_raises_type_error [OF small book post auth bad]
  show ?thesis by blast
qed

end
